theory Spec2Isabelle
  imports Main "HOL-Library.Char_ord" "HOL-Library.List_Lexorder" "HOL-Library.AList"
begin

section \<open>Go library functions used by the package\<close>

text \<open>
  Go strings are byte sequences; they are modelled as \<open>string\<close> (a list of 8-bit
  characters), so \<open>length\<close> is Go's \<open>len\<close>. The functions of this section stand for
  the functions of Go's \<open>strings\<close> and \<open>unicode/utf8\<close> packages that the package calls.
\<close>

definition HasPrefix :: "string \<Rightarrow> string \<Rightarrow> bool" where
  "HasPrefix s p = (take (length p) s = p)"

definition HasSuffix :: "string \<Rightarrow> string \<Rightarrow> bool" where
  "HasSuffix s p = (length p \<le> length s \<and> drop (length s - length p) s = p)"

text \<open>
  \<open>s[lo:hi]\<close>: Go panics unless \<open>lo \<le> hi \<le> len(s)\<close>; the panic is \<open>None\<close>.
\<close>

definition slice :: "string \<Rightarrow> nat \<Rightarrow> nat \<Rightarrow> string option" where
  "slice s lo hi = (if lo \<le> hi \<and> hi \<le> length s then Some (take (hi - lo) (drop lo s)) else None)"

text \<open>
  The encodings of the runes for which \<open>unicode.IsSpace\<close> holds: the six ASCII ones,
  U+0085, U+00A0, U+1680, U+2000 to U+200A, U+2028, U+2029, U+202F, U+205F and U+3000.
\<close>

definition spaceRunes :: "string list" where
  "spaceRunes =
     [[CHR 0x09], [CHR 0x0A], [CHR 0x0B], [CHR 0x0C], [CHR 0x0D], [CHR 0x20],
      [CHR 0xC2, CHR 0x85], [CHR 0xC2, CHR 0xA0], [CHR 0xE1, CHR 0x9A, CHR 0x80],
      [CHR 0xE2, CHR 0x80, CHR 0x80], [CHR 0xE2, CHR 0x80, CHR 0x81],
      [CHR 0xE2, CHR 0x80, CHR 0x82], [CHR 0xE2, CHR 0x80, CHR 0x83],
      [CHR 0xE2, CHR 0x80, CHR 0x84], [CHR 0xE2, CHR 0x80, CHR 0x85],
      [CHR 0xE2, CHR 0x80, CHR 0x86], [CHR 0xE2, CHR 0x80, CHR 0x87],
      [CHR 0xE2, CHR 0x80, CHR 0x88], [CHR 0xE2, CHR 0x80, CHR 0x89],
      [CHR 0xE2, CHR 0x80, CHR 0x8A], [CHR 0xE2, CHR 0x80, CHR 0xA8],
      [CHR 0xE2, CHR 0x80, CHR 0xA9], [CHR 0xE2, CHR 0x80, CHR 0xAF],
      [CHR 0xE2, CHR 0x81, CHR 0x9F], [CHR 0xE3, CHR 0x80, CHR 0x80]]"

text \<open>
  \<open>trimRunes ws s\<close> removes from the front of \<open>s\<close> every leading occurrence of a
  sequence of \<open>ws\<close>.
\<close>

fun trimRunes :: "string list \<Rightarrow> string \<Rightarrow> string" where
  "trimRunes ws [] = []"
| "trimRunes ws (c # s) =
     (case find (\<lambda>w. w \<noteq> [] \<and> HasPrefix (c # s) w) ws of
        None \<Rightarrow> c # s
      | Some w \<Rightarrow> trimRunes ws (drop (length w - 1) s))"

text \<open>
  \<open>strings.TrimSpace\<close>: leading and trailing white space runes are removed. A string ends
  with a white space rune exactly when it ends with that rune's encoding, so the right end
  is trimmed on the reversed string.
\<close>

definition TrimSpace :: "string \<Rightarrow> string" where
  "TrimSpace s = rev (trimRunes (map rev spaceRunes) (rev (trimRunes spaceRunes s)))"

text \<open>\<open>strings.Replace(s, old, new, -1)\<close> for a non-empty \<open>old\<close>.\<close>

fun ReplaceAll :: "string \<Rightarrow> string \<Rightarrow> string \<Rightarrow> string" where
  "ReplaceAll [] old new = []"
| "ReplaceAll (c # s) old new =
     (if old \<noteq> [] \<and> HasPrefix (c # s) old
      then new @ ReplaceAll (drop (length old - 1) s) old new
      else c # ReplaceAll s old new)"

text \<open>\<open>strings.Replace(s, old, new, 1)\<close>: the first occurrence only.\<close>

fun ReplaceFirst :: "string \<Rightarrow> string \<Rightarrow> string \<Rightarrow> string" where
  "ReplaceFirst [] old new = (if old = [] then new else [])"
| "ReplaceFirst (c # s) old new =
     (if HasPrefix (c # s) old then new @ drop (length old) (c # s)
      else c # ReplaceFirst s old new)"

text \<open>\<open>strings.Split(s, sep)\<close> for a separator of one byte.\<close>

fun Split :: "string \<Rightarrow> char \<Rightarrow> string list" where
  "Split [] sep = [[]]"
| "Split (c # s) sep =
     (if c = sep then [] # Split s sep
      else (case Split s sep of p # ps \<Rightarrow> (c # p) # ps | [] \<Rightarrow> [[c]]))"

text \<open>\<open>strings.SplitN(s, sep, 2)\<close> for a separator of one byte.\<close>

definition SplitN2 :: "string \<Rightarrow> char \<Rightarrow> string list" where
  "SplitN2 s sep =
     (if sep \<in> set s then [takeWhile (\<lambda>c. c \<noteq> sep) s, tl (dropWhile (\<lambda>c. c \<noteq> sep) s)]
      else [s])"

text \<open>\<open>strings.LastIndex(s, sep)\<close> for a separator of one byte; \<open>-1\<close> when it is absent.\<close>

fun LastIndex :: "string \<Rightarrow> char \<Rightarrow> int" where
  "LastIndex [] sep = - 1"
| "LastIndex (c # s) sep =
     (let r = LastIndex s sep in
      if 0 \<le> r then r + 1 else if c = sep then 0 else - 1)"

text \<open>\<open>strings.ContainsAny(s, chars)\<close> for ASCII \<open>chars\<close>.\<close>

definition ContainsAny :: "string \<Rightarrow> string \<Rightarrow> bool" where
  "ContainsAny s chars = (\<exists>c \<in> set s. c \<in> set chars)"


text \<open>
  \<open>utf8.ValidString\<close>: the bytes are a sequence of well-formed UTF-8 encodings (no
  overlong form, no surrogate, nothing above U+10FFFF).
\<close>

definition contByte :: "char \<Rightarrow> bool" where
  "contByte c = (0x80 \<le> (of_char c :: nat) \<and> (of_char c :: nat) \<le> 0xBF)"

definition byteIn :: "char \<Rightarrow> nat \<Rightarrow> nat \<Rightarrow> bool" where
  "byteIn c lo hi = (lo \<le> (of_char c :: nat) \<and> (of_char c :: nat) \<le> hi)"

fun ValidString :: "string \<Rightarrow> bool" where
  "ValidString [] = True"
| "ValidString [a] = byteIn a 0 0x7F"
| "ValidString [a, b] =
     (if byteIn a 0 0x7F then ValidString [b] else byteIn a 0xC2 0xDF \<and> contByte b)"
| "ValidString [a, b, c] =
     (if byteIn a 0 0x7F then ValidString [b, c]
      else if byteIn a 0xC2 0xDF then contByte b \<and> ValidString [c]
      else ((a = CHR 0xE0 \<and> byteIn b 0xA0 0xBF) \<or> (a = CHR 0xED \<and> byteIn b 0x80 0x9F) \<or>
            ((byteIn a 0xE1 0xEC \<or> byteIn a 0xEE 0xEF) \<and> contByte b)) \<and> contByte c)"
| "ValidString (a # b # c # d # s) =
     (if byteIn a 0 0x7F then ValidString (b # c # d # s)
      else if byteIn a 0xC2 0xDF then contByte b \<and> ValidString (c # d # s)
      else if byteIn a 0xE0 0xEF then
        ((a = CHR 0xE0 \<and> byteIn b 0xA0 0xBF) \<or> (a = CHR 0xED \<and> byteIn b 0x80 0x9F) \<or>
         ((byteIn a 0xE1 0xEC \<or> byteIn a 0xEE 0xEF) \<and> contByte b)) \<and> contByte c \<and>
        ValidString (d # s)
      else ((a = CHR 0xF0 \<and> byteIn b 0x90 0xBF) \<or> (a = CHR 0xF4 \<and> byteIn b 0x80 0x8F) \<or>
            (byteIn a 0xF1 0xF3 \<and> contByte b)) \<and> contByte c \<and> contByte d \<and> ValidString s)"

text \<open>\<open>strings.ToLower\<close>, on the ASCII letters. The package lowers a path only to test
  it for the prefixes \<open>http://\<close> and \<open>https://\<close>, and no rune outside ASCII lowers to one
  of their letters, so the test reads the same on every path.\<close>

definition lowerChar :: "char \<Rightarrow> char" where
  "lowerChar c = (if byteIn c 0x41 0x5A then char_of (of_char c + (32 :: nat)) else c)"

definition ToLower :: "string \<Rightarrow> string" where
  "ToLower s = map lowerChar s"

section \<open>Outcomes and errors\<close>

text \<open>
  A call of the package returns, panics (a Go run-time panic, which ends the process),
  ends the process with an exit status (\<open>os.Exit\<close>, \<open>logger.Fatalf\<close>), or is cut off by the
  model's bound on the depth of nested imports (\<open>NoFuel\<close>; see \<open>getArgsFromConfig\<close>).
\<close>

datatype 'a outcome = Return 'a | Panic | Exit nat | NoFuel

text \<open>
  The functions of the package report failure by logging a message and returning
  \<open>ok = false\<close> with a nil result. The model returns \<open>Inl e\<close>, where \<open>e\<close> names the message
  logged at that return, and \<open>Inr r\<close> for \<open>ok = true\<close> with the result \<open>r\<close>.
\<close>

datatype error =
    ImportRecursion      \<comment> \<open>import recursion found for ...\<close>
  | CannotOpen           \<comment> \<open>the source could not be opened and a missing config is not allowed\<close>
  | ReadError            \<comment> \<open>error when reading file ...\<close>
  | InvalidUTF8          \<comment> \<open>invalid UTF-8 encoding at line ...\<close>
  | UnclosedString       \<comment> \<open>unclosed string found ...\<close>
  | CannotSplit          \<comment> \<open>cannot split ... into key and value\<close>
  | NoOpeningBrace       \<comment> \<open>cannot find '{' in the multiline key ...\<close>
  | BadPath              \<comment> \<open>error when parsing http base path / rel path\<close>
  | MergeFailed          \<comment> \<open>unknown flag name, or error when parsing flag value\<close>

section \<open>Quoting\<close>

abbreviation dquote :: char where "dquote \<equiv> CHR 0x22"
abbreviation bslash :: char where "bslash \<equiv> CHR 0x5C"
abbreviation newline :: char where "newline \<equiv> CHR 0x0A"

definition removeTrailingComments :: "string \<Rightarrow> string" where
  "removeTrailingComments v = TrimSpace (hd (Split (hd (Split v CHR ''#'')) CHR '';''))"

definition getTrailingComment :: "string \<Rightarrow> string" where
  "getTrailingComment v =
     (if length v = 0 then []
      else if hd v = dquote then []
      else let s = Split v CHR ''#'' in
        if length s > 1 then s ! 1
        else let s = Split v CHR '';'' in
          if length s > 1 then s ! 1 else [])"

definition quoteValue :: "string \<Rightarrow> string" where
  "quoteValue v =
     (if \<not> ContainsAny v [newline, CHR ''#'', CHR '';''] \<and> TrimSpace v = v then v
      else let v = ReplaceAll v [bslash] [bslash, bslash];
               v = ReplaceAll v [newline] [bslash, CHR ''n''];
               v = ReplaceAll v [dquote] [bslash, dquote]
           in [dquote] @ v @ [dquote])"

text \<open>
  \<open>unquoteValue\<close> returns the value and the trailing comment. Its parameters \<open>lineNum\<close>
  and \<open>configPath\<close> are only logged and are left out. \<open>q\<close> stands for
  \<open>fmt.Sprintf("%q", v)\<close>, Go's quoting of a string, which only the comment depends on.
  The slice \<open>v[1:n]\<close> panics when \<open>n = 0\<close>.
\<close>

definition unquoteValue :: "(string \<Rightarrow> string) \<Rightarrow> string \<Rightarrow> (error + string \<times> string) outcome" where
  "unquoteValue q val =
     (let v = TrimSpace val in
      if length v = 0 then Return (Inr ([], []))
      else if hd v \<noteq> dquote then Return (Inr (removeTrailingComments v, getTrailingComment v))
      else let n = LastIndex v dquote in
        if n = - 1 then Return (Inl UnclosedString)
        else (case slice v 1 (nat n) of
                None \<Rightarrow> Panic
              | Some v \<Rightarrow>
                  let v = ReplaceAll v [bslash, dquote] [dquote];
                      v = ReplaceAll v [bslash, CHR ''n''] [newline];
                      v = ReplaceAll v [bslash, bslash] [bslash];
                      comment = getTrailingComment (ReplaceFirst val (q v) [])
                  in Return (Inr (v, comment))))"

text \<open>\<open>escapeUsage\<close>: the usage text as the comment of a dumped line.\<close>

definition escapeUsage :: "string \<Rightarrow> string" where
  "escapeUsage s =
     foldl (\<lambda>s str. ReplaceAll s str [])
       (ReplaceAll s [newline] ([newline] @ ''    # ''))
       [[CHR 0x09], [CHR 0x0B], [CHR 0x0C], [CHR 0x08], [CHR 0x07], [bslash], [dquote],
        [CHR 0xC2, CHR 0xB2], [CHR 0xC2, CHR 0xB3], [CHR 0xC2, CHR 0xB9],
        [CHR 0xE2, CHR 0x81, CHR 0xB0], [CHR 0xE2, CHR 0x81, CHR 0xB4],
        [CHR 0xE2, CHR 0x81, CHR 0xB5], [CHR 0xE2, CHR 0x81, CHR 0xB6],
        [CHR 0xE2, CHR 0x81, CHR 0xB7], [CHR 0xE2, CHR 0x81, CHR 0xB8],
        [CHR 0xE2, CHR 0x81, CHR 0xB9]]"


section \<open>The flag registry\<close>

text \<open>
  Go's \<open>flag\<close> package is not part of the repository. Its default flag set is modelled
  by what the package uses of it. A flag has a usage text and a \<open>Value\<close>, of which the
  package calls \<open>String()\<close> and \<open>Set(s)\<close>: \<open>ValueString\<close> is the current \<open>String()\<close>, and
  \<open>ValueSet\<close> is \<open>Set\<close>, a parameter of the model: from the current \<open>String()\<close> and the
  argument it gives the \<open>String()\<close> after the call and whether the call returned no error.
  Every flag has a \<open>Value\<close> of its own. \<open>formal\<close> lists the defined flags by name (a name is
  defined once), \<open>actual\<close> holds the names of the flags that have been set through the flag
  set: by \<open>flag.Parse()\<close> from the command line, or by \<open>flag.Set\<close>.
\<close>

record Flag =
  Usage :: string
  ValueString :: string
  ValueSet :: "string \<Rightarrow> string \<Rightarrow> string \<times> bool"

record FlagSet =
  formal :: "(string \<times> Flag) list"
  actual :: "string set"

definition Lookup :: "FlagSet \<Rightarrow> string \<Rightarrow> Flag option" where
  "Lookup fs name = map_of (formal fs) name"

text \<open>\<open>f.Value.Set(s)\<close> on the flag \<open>name\<close>, whose entry is \<open>f\<close>: the new flag set and
  whether \<open>Set\<close> returned no error.\<close>

definition valueSet :: "FlagSet \<Rightarrow> string \<Rightarrow> Flag \<Rightarrow> string \<Rightarrow> FlagSet \<times> bool" where
  "valueSet fs name f s =
     (let (v, accepted) = ValueSet f (ValueString f) s
      in (fs\<lparr>formal := AList.update name (f\<lparr>ValueString := v\<rparr>) (formal fs)\<rparr>, accepted))"

text \<open>\<open>flag.Set(name, s)\<close>: an undefined name is an error; otherwise the value is set and,
  when it accepted the argument, the flag is entered in \<open>actual\<close>.\<close>

definition flagSet :: "FlagSet \<Rightarrow> string \<Rightarrow> string \<Rightarrow> FlagSet \<times> bool" where
  "flagSet fs name s =
     (case Lookup fs name of
        None \<Rightarrow> (fs, False)
      | Some f \<Rightarrow>
          (case valueSet fs name f s of
             (fs', accepted) \<Rightarrow>
               if accepted then (fs'\<lparr>actual := insert name (actual fs')\<rparr>, True)
               else (fs', False)))"

text \<open>The variables the package binds to its own flags: \<open>*config\<close> is the \<open>String()\<close> of
  the flag \<open>config\<close>, and a boolean variable is true when the \<open>String()\<close> of its flag is
  \<open>true\<close>.\<close>

definition stringVar :: "FlagSet \<Rightarrow> string \<Rightarrow> string" where
  "stringVar fs name = (case Lookup fs name of Some f \<Rightarrow> ValueString f | None \<Rightarrow> [])"

definition boolVar :: "FlagSet \<Rightarrow> string \<Rightarrow> bool" where
  "boolVar fs name = (stringVar fs name = ''true'')"

text \<open>The \<open>Set\<close> of the flag package's string and boolean values. A boolean value that
  rejects its argument is left false.\<close>

definition stringValueSet :: "string \<Rightarrow> string \<Rightarrow> string \<times> bool" where
  "stringValueSet cur s = (s, True)"

definition boolValueSet :: "string \<Rightarrow> string \<Rightarrow> string \<times> bool" where
  "boolValueSet cur s =
     (if s \<in> set [''1'', ''t'', ''T'', ''TRUE'', ''true'', ''True''] then (''true'', True)
      else if s \<in> set [''0'', ''f'', ''F'', ''FALSE'', ''false'', ''False''] then (''false'', True)
      else (''false'', False))"

section \<open>Sources\<close>

text \<open>
  What surrounds the process is a parameter of the model. A source that opens delivers
  its bytes and then ends, at the end of the file or by a read error. \<open>osOpen\<close> is
  \<open>os.Open\<close> (\<open>None\<close>: an error), \<open>httpGet\<close> is \<open>http.Get\<close> (\<open>None\<close>: an error; otherwise
  the status code and the body), \<open>urlResolve base rel\<close> is \<open>url.Parse\<close> of both and
  \<open>ResolveReference\<close> (\<open>None\<close>: one of them does not parse), \<open>pathJoinDir base rel\<close> is
  \<open>path.Join(path.Dir(base), rel)\<close>, \<open>sprintfQ v\<close> is \<open>fmt.Sprintf("%q", v)\<close>, and
  \<open>flagParse args fs\<close> is \<open>flag.Parse()\<close> on the arguments \<open>args\<close> (\<open>None\<close>: it ends the
  process with status 2).
\<close>

datatype readEnd = EOF | ReadFailure

record world =
  osOpen :: "string \<Rightarrow> (string \<times> readEnd) option"
  httpGet :: "string \<Rightarrow> (nat \<times> string \<times> readEnd) option"
  urlResolve :: "string \<Rightarrow> string \<Rightarrow> string option"
  pathJoinDir :: "string \<Rightarrow> string \<Rightarrow> string"
  sprintfQ :: "string \<Rightarrow> string"
  flagParse :: "string list \<Rightarrow> FlagSet \<Rightarrow> FlagSet option"

definition isHTTP :: "string \<Rightarrow> bool" where
  "isHTTP path = (HasPrefix (ToLower path) ''http://'' \<or> HasPrefix (ToLower path) ''https://'')"

definition isSecure :: "string \<Rightarrow> bool" where
  "isSecure path = HasPrefix (ToLower path) ''https://''"

text \<open>
  \<open>openConfigFile\<close> returns Go's pair of a reader and an error, each of which may be nil
  (\<open>None\<close>). After a response whose status is not 200 it returns \<open>err\<close>, which is nil there.
\<close>

datatype openError = UnsecureNotAllowed | GetFailed | OpenFailed

definition StatusOK :: nat where
  "StatusOK = 200"

definition openConfigFile :: "world \<Rightarrow> FlagSet \<Rightarrow> string \<Rightarrow> (string \<times> readEnd) option \<times> openError option" where
  "openConfigFile w fs path =
     (if isHTTP path then
        (if \<not> isSecure path \<and> \<not> boolVar fs ''unsecure'' then (None, Some UnsecureNotAllowed)
         else (case httpGet w path of
                 None \<Rightarrow> (None, Some GetFailed)
               | Some (status, body) \<Rightarrow>
                   if status \<noteq> StatusOK then (None, None) else (Some body, None)))
      else (case osOpen w path of
              None \<Rightarrow> (None, Some OpenFailed)
            | Some file \<Rightarrow> (Some file, None)))"

definition combinePath :: "world \<Rightarrow> string \<Rightarrow> string \<Rightarrow> string option" where
  "combinePath w basePath relPath =
     (if isHTTP basePath then urlResolve w basePath relPath
      else if relPath = [] \<or> hd relPath = CHR ''/'' \<or> isHTTP relPath then Some relPath
      else Some (pathJoinDir w basePath relPath))"

section \<open>The parser\<close>

record flagArg =
  Key :: string
  Value :: string
  FilePath :: string
  LineNum :: nat
  Comment :: string

text \<open>The zero value \<open>flagArg{}\<close>.\<close>

definition noFlagArg :: flagArg where
  "noFlagArg = \<lparr>Key = [], Value = [], FilePath = [], LineNum = 0, Comment = []\<rparr>"

definition checkImportRecursion :: "string list \<Rightarrow> string \<Rightarrow> bool" where
  "checkImportRecursion importStack configPath = (configPath \<notin> set importStack)"

definition stripBOM :: "string \<Rightarrow> string" where
  "stripBOM s =
     (if length s < 3 then s
      else if take 3 s = [CHR 0xEF, CHR 0xBB, CHR 0xBF] \<or> take 3 s = [CHR 0xEF, CHR 0xBF, CHR 0xBE]
      then drop 3 s else s)"

text \<open>The pieces \<open>r.ReadString('\n')\<close> returns one after the other: each ends with its
  newline, but for the last when the bytes do not end with one.\<close>

fun readLines :: "string \<Rightarrow> string list" where
  "readLines [] = []"
| "readLines (c # s) =
     (if c = newline then [c] # readLines s
      else (case readLines s of [] \<Rightarrow> [[c]] | l # ls \<Rightarrow> (c # l) # ls))"

text \<open>
  The part of the loop body of \<open>getArgsFromConfig\<close> that handles a key/value line: the line
  is trimmed and is not an import, blank, a section or a comment. From the pending
  comment, the pending multi-line argument and the arguments emitted so far it gives
  the new pending multi-line argument and the new arguments (the comment is always reset).
\<close>

definition keyValueLine ::
  "world \<Rightarrow> string \<Rightarrow> nat \<Rightarrow> string \<Rightarrow> string \<Rightarrow> flagArg \<Rightarrow> flagArg list \<Rightarrow>
   (error + flagArg \<times> flagArg list) outcome" where
  "keyValueLine w configPath lineNum line comment multilineFA args =
     (case SplitN2 line CHR ''='' of
        [part0, part1] \<Rightarrow>
          (let key = TrimSpace part0 in
           case unquoteValue (sprintfQ w) part1 of
             Panic \<Rightarrow> Panic
           | Exit c \<Rightarrow> Exit c
           | NoFuel \<Rightarrow> NoFuel
           | Return (Inl e) \<Rightarrow> Return (Inl e)
           | Return (Inr (val, cmt)) \<Rightarrow>
               (let comment = (if comment = [] then cmt else comment);
                    fa = \<lparr>Key = key, Value = val, FilePath = configPath, LineNum = lineNum,
                          Comment = comment\<rparr>
                in if \<not> HasSuffix key ''}'' then
                     (if length (Key multilineFA) > 0
                      then Return (Inr (noFlagArg, args @ [multilineFA] @ [fa]))
                      else Return (Inr (multilineFA, args @ [fa])))
                   else
                     (let n = LastIndex key CHR ''{'' in
                      if n < 0 then Return (Inl NoOpeningBrace)
                      else if Key multilineFA = [] then
                        Return (Inr (fa\<lparr>Key := take (nat n) key\<rparr>, args))
                      else if Key multilineFA = take (nat n) key then
                        (case slice key (nat n + 1) (length key - 1) of
                           None \<Rightarrow> Panic
                         | Some delimiter \<Rightarrow>
                             Return (Inr (multilineFA\<lparr>Value := Value multilineFA @ delimiter @ val\<rparr>,
                                          args)))
                      else Return (Inr (fa\<lparr>Key := take (nat n) key\<rparr>, args @ [multilineFA])))))
      | _ \<Rightarrow> Return (Inl CannotSplit))"

text \<open>
  The body of the loop of \<open>getArgsFromConfig\<close> for a line \<open>l\<close> that was read. The state
  of the loop is the line number, the pending comment, the pending multi-line argument and
  the arguments emitted so far; the global import stack is passed along with it. \<open>imp\<close> is
  the recursive call for an import: from the import stack and a path it gives the stack
  after the call and the call's result.
\<close>

type_synonym loopState = "nat \<times> string \<times> flagArg \<times> flagArg list"

type_synonym importer = "string list \<Rightarrow> string \<Rightarrow> (string list \<times> (error + flagArg list)) outcome"

definition lineStep ::
  "importer \<Rightarrow> world \<Rightarrow> string \<Rightarrow> string \<Rightarrow> string list \<Rightarrow> loopState \<Rightarrow>
   (string list \<times> (error + loopState)) outcome" where
  "lineStep imp w configPath l importStack st =
     (case st of (lineNum, comment, multilineFA, args) \<Rightarrow>
        let lineNum = lineNum + 1 in
        if \<not> ValidString l then Return (importStack, Inl InvalidUTF8)
        else
          let line = TrimSpace (if lineNum = 1 then stripBOM l else l)
          in if HasPrefix line ''#import '' then
               (case unquoteValue (sprintfQ w) (drop 7 line) of
                  Panic \<Rightarrow> Panic
                | Exit c \<Rightarrow> Exit c
                | NoFuel \<Rightarrow> NoFuel
                | Return (Inl e) \<Rightarrow> Return (importStack, Inl e)
                | Return (Inr (importPath, cmt)) \<Rightarrow>
                    (case combinePath w configPath importPath of
                       None \<Rightarrow> Return (importStack, Inl BadPath)
                     | Some importPath \<Rightarrow>
                         (case imp importStack importPath of
                            Panic \<Rightarrow> Panic
                          | Exit c \<Rightarrow> Exit c
                          | NoFuel \<Rightarrow> NoFuel
                          | Return (importStack, Inl e) \<Rightarrow> Return (importStack, Inl e)
                          | Return (importStack, Inr importArgs) \<Rightarrow>
                              Return (importStack,
                                Inr (lineNum, comment, multilineFA, args @ importArgs)))))
             else if line = [] \<or> hd line = CHR ''['' then
               Return (importStack, Inr (lineNum, [], multilineFA, args))
             else if hd line = CHR ''#'' \<or> hd line = CHR '';'' then
               Return (importStack, Inr (lineNum, tl line, multilineFA, args))
             else
               (case keyValueLine w configPath lineNum line comment multilineFA args of
                  Panic \<Rightarrow> Panic
                | Exit c \<Rightarrow> Exit c
                | NoFuel \<Rightarrow> NoFuel
                | Return (Inl e) \<Rightarrow> Return (importStack, Inl e)
                | Return (Inr (multilineFA, args)) \<Rightarrow>
                    Return (importStack, Inr (lineNum, [], multilineFA, args))))"

text \<open>The loop over the lines read one after the other, up to the end of the source.\<close>

fun loopLines ::
  "importer \<Rightarrow> world \<Rightarrow> string \<Rightarrow> string list \<Rightarrow> string list \<Rightarrow> loopState \<Rightarrow>
   (string list \<times> (error + loopState)) outcome" where
  "loopLines imp w configPath [] importStack st = Return (importStack, Inr st)"
| "loopLines imp w configPath (l # ls) importStack st =
     (case lineStep imp w configPath l importStack st of
        Return (importStack, Inr st) \<Rightarrow> loopLines imp w configPath ls importStack st
      | r \<Rightarrow> r)"

text \<open>The last iteration, where \<open>ReadString\<close> returns no bytes and an error: at the end
  of the file a pending multi-line argument is flushed; a read error fails the parse.\<close>

definition endOfSource :: "readEnd \<Rightarrow> loopState \<Rightarrow> error + flagArg list" where
  "endOfSource end st =
     (case st of (lineNum, comment, multilineFA, args) \<Rightarrow>
        (case end of
           EOF \<Rightarrow> Inr (if length (Key multilineFA) > 0 then args @ [multilineFA] else args)
         | ReadFailure \<Rightarrow> Inl ReadError))"

text \<open>
  \<open>getArgsFromConfig\<close>, with the global import stack passed in and returned. A chain of
  imports through ever new sources never ends, so the depth of nested calls is bounded by
  the first argument; a call that needs more returns \<open>NoFuel\<close>. The deferred function pops
  the stack when the call returns. When \<open>openConfigFile\<close> returns neither a reader nor an
  error, \<open>file.Close\<close> is called on a nil interface and panics.
\<close>

fun getArgsFromConfig ::
  "nat \<Rightarrow> world \<Rightarrow> FlagSet \<Rightarrow> string list \<Rightarrow> string \<Rightarrow>
   (string list \<times> (error + flagArg list)) outcome" where
  "getArgsFromConfig 0 w fs importStack configPath = NoFuel"
| "getArgsFromConfig (Suc fuel) w fs importStack configPath =
     (if \<not> checkImportRecursion importStack configPath then Return (importStack, Inl ImportRecursion)
      else
        let importStack = importStack @ [configPath] in
        case openConfigFile w fs configPath of
          (file, Some err) \<Rightarrow>
            Return (butlast importStack,
              if boolVar fs ''allowMissingConfig'' then Inr [] else Inl CannotOpen)
        | (None, None) \<Rightarrow> Panic
        | (Some (bytes, end), None) \<Rightarrow>
            (case loopLines (getArgsFromConfig fuel w fs) w configPath (readLines bytes)
                    importStack (0, [], noFlagArg, []) of
               Panic \<Rightarrow> Panic
             | Exit c \<Rightarrow> Exit c
             | NoFuel \<Rightarrow> NoFuel
             | Return (importStack, r) \<Rightarrow>
                 if importStack = [] then Panic
                 else Return (butlast importStack,
                        case r of Inl e \<Rightarrow> Inl e | Inr st \<Rightarrow> endOfSource end st)))"

section \<open>The merge engine\<close>

text \<open>
  The state of the package: the flag set, the package's global variables, and the
  process arguments. \<open>flagChangeCallbacks\<close> keeps the flag names callbacks are registered
  for; the callbacks are the client's code and are not modelled. \<open>Generation\<close> is a Go
  \<open>int\<close>, taken 64 bits wide: an integer from \<open>-2^63\<close> up to \<open>2^63 - 1\<close>, incremented with
  wrap-around.
\<close>

record session =
  flags :: FlagSet
  importStack :: "string list"
  parsed :: bool
  Generation :: int
  flagShorthands :: "string \<Rightarrow> string option"
  commandLineShorthands :: "string set"
  flagChangeCallbacks :: "string list"
  flagsToExcludeFromDump :: "string set"
  osArgs :: "string list"

definition incr :: "int \<Rightarrow> int" where
  "incr i = (i + 1 + 2 ^ 63) mod 2 ^ 64 - 2 ^ 63"

definition getMissingFlags :: "FlagSet \<Rightarrow> string set" where
  "getMissingFlags fs = {name \<in> set (map fst (formal fs)). name \<notin> actual fs}"

text \<open>
  The body of the loop of \<open>parseConfigFlags\<close> for one parsed argument, on the flag set,
  \<open>oldFlagValues\<close> (a Go map, kept as an association list with one entry for a key) and
  \<open>ok\<close>. The flag found under a name carries that name, so \<open>f.Name\<close> is the key the flag
  was found under.
\<close>

definition mergeArg ::
  "(string \<Rightarrow> string option) \<Rightarrow> string set \<Rightarrow> flagArg \<Rightarrow>
   FlagSet \<times> (string \<times> string) list \<times> bool \<Rightarrow> FlagSet \<times> (string \<times> string) list \<times> bool" where
  "mergeArg shorthands missingFlags arg st =
     (case st of (fs, oldFlagValues, ok) \<Rightarrow>
        let (f, key) =
              (case Lookup fs (Key arg) of
                 Some f \<Rightarrow> (Some f, Key arg)
               | None \<Rightarrow>
                   (case shorthands (Key arg) of
                      Some fullName \<Rightarrow> (Lookup fs fullName, fullName)
                    | None \<Rightarrow> (None, Key arg)))
        in case f of
             None \<Rightarrow> (fs, oldFlagValues, if \<not> boolVar fs ''allowUnknownFlags'' then False else ok)
           | Some f \<Rightarrow>
               if key \<in> missingFlags then
                 (let oldValue = ValueString f in
                  if oldValue = Value arg then (fs, oldFlagValues, ok)
                  else (case valueSet fs key f (Value arg) of
                          (fs, accepted) \<Rightarrow>
                            if \<not> accepted then (fs, oldFlagValues, False)
                            else if oldValue \<noteq> stringVar fs key
                            then (fs, AList.update key oldValue oldFlagValues, ok)
                            else (fs, oldFlagValues, ok)))
               else (fs, oldFlagValues, ok))"

fun mergeArgs ::
  "(string \<Rightarrow> string option) \<Rightarrow> string set \<Rightarrow> flagArg list \<Rightarrow>
   FlagSet \<times> (string \<times> string) list \<times> bool \<Rightarrow> FlagSet \<times> (string \<times> string) list \<times> bool" where
  "mergeArgs shorthands missingFlags [] st = st"
| "mergeArgs shorthands missingFlags (arg # parsedArgs) st =
     mergeArgs shorthands missingFlags parsedArgs (mergeArg shorthands missingFlags arg st)"

text \<open>The loop that restores the old flag values: \<open>flag.Set(k, v)\<close> for every entry of
  \<open>oldFlagValues\<close>, the result of \<open>flag.Set\<close> being dropped.\<close>

fun restore :: "(string \<times> string) list \<Rightarrow> FlagSet \<Rightarrow> FlagSet" where
  "restore [] fs = fs"
| "restore ((k, v) # oldFlagValues) fs = restore oldFlagValues (fst (flagSet fs k v))"

text \<open>
  The first lines of \<open>parseConfigFlags\<close>: the path of the config source, \<open>None\<close> when
  \<open>combinePath\<close> fails. \<open>os.Args[0]\<close> panics when there are no process arguments.
\<close>

definition configPathOf :: "world \<Rightarrow> session \<Rightarrow> string option outcome" where
  "configPathOf w s =
     (let config = stringVar (flags s) ''config'' in
      if \<not> HasPrefix config ''./'' then
        (case osArgs s of
           [] \<Rightarrow> Panic
         | arg0 # _ \<Rightarrow> Return (combinePath w arg0 config))
      else Return (Some config))"

text \<open>
  \<open>parseConfigFlags\<close>: one merge pass. It returns the old values of the flags it changed,
  or fails; after a failed loop it restores the old values.
\<close>

definition parseConfigFlags ::
  "nat \<Rightarrow> world \<Rightarrow> session \<Rightarrow> (session \<times> (error + (string \<times> string) list)) outcome" where
  "parseConfigFlags fuel w s =
     (case configPathOf w s of
        Panic \<Rightarrow> Panic
      | Exit c \<Rightarrow> Exit c
      | NoFuel \<Rightarrow> NoFuel
      | Return None \<Rightarrow> Return (s, Inl BadPath)
      | Return (Some configPath) \<Rightarrow>
          if configPath = [] then Return (s, Inr [])
          else (case getArgsFromConfig fuel w (flags s) (importStack s) configPath of
                  Panic \<Rightarrow> Panic
                | Exit c \<Rightarrow> Exit c
                | NoFuel \<Rightarrow> NoFuel
                | Return (stack, Inl e) \<Rightarrow> Return (s\<lparr>importStack := stack\<rparr>, Inl e)
                | Return (stack, Inr parsedArgs) \<Rightarrow>
                    (case mergeArgs (flagShorthands s) (getMissingFlags (flags s)) parsedArgs
                            (flags s, [], True) of
                       (fs, oldFlagValues, ok) \<Rightarrow>
                         if \<not> ok
                         then Return (s\<lparr>importStack := stack, flags := restore oldFlagValues fs\<rparr>,
                                Inl MergeFailed)
                         else Return (s\<lparr>importStack := stack, flags := fs\<rparr>, Inr oldFlagValues))))"

section \<open>Parse and reload\<close>

text \<open>
  \<open>updateConfig\<close>: a reload, as the timer and the SIGHUP handler run it. The callbacks it
  issues are not modelled.
\<close>

definition updateConfig :: "nat \<Rightarrow> world \<Rightarrow> session \<Rightarrow> session outcome" where
  "updateConfig fuel w s =
     (case parseConfigFlags fuel w s of
        Panic \<Rightarrow> Panic
      | Exit c \<Rightarrow> Exit c
      | NoFuel \<Rightarrow> NoFuel
      | Return (s, Inl e) \<Rightarrow> Return s
      | Return (s, Inr oldFlagValues) \<Rightarrow>
          if length oldFlagValues > 0 then Return (s\<lparr>Generation := incr (Generation s)\<rparr>)
          else Return s)"

text \<open>The loop of \<open>handleCommandLineShorthands\<close> over the arguments after the first.\<close>

fun rewriteArgs :: "(string \<Rightarrow> string option) \<Rightarrow> string set \<Rightarrow> string list \<Rightarrow> string list" where
  "rewriteArgs shorthands cmdline [] = []"
| "rewriteArgs shorthands cmdline [arg] =
     (if length arg > 1 \<and> hd arg = CHR ''-'' \<and> \<not> HasPrefix arg ''--'' then
        (let shortName = takeWhile (\<lambda>c. c \<noteq> CHR ''='') (tl arg);
             val = dropWhile (\<lambda>c. c \<noteq> CHR ''='') (tl arg)
         in case shorthands shortName of
              Some fullName \<Rightarrow>
                if shortName \<in> cmdline then [''-'' @ fullName @ val] else [arg]
            | None \<Rightarrow> [arg])
      else [arg])"
| "rewriteArgs shorthands cmdline (arg # next # rest) =
     (if length arg > 1 \<and> hd arg = CHR ''-'' \<and> \<not> HasPrefix arg ''--'' then
        (let shortName = takeWhile (\<lambda>c. c \<noteq> CHR ''='') (tl arg);
             val = dropWhile (\<lambda>c. c \<noteq> CHR ''='') (tl arg);
             hasValue = (CHR ''='' \<in> set (tl arg))
         in case shorthands shortName of
              Some fullName \<Rightarrow>
                if shortName \<in> cmdline then
                  (if hasValue then (''-'' @ fullName @ val) # rewriteArgs shorthands cmdline (next # rest)
                   else if \<not> HasPrefix next ''-''
                   then (''-'' @ fullName) # next # rewriteArgs shorthands cmdline rest
                   else (''-'' @ fullName) # rewriteArgs shorthands cmdline (next # rest))
                else arg # rewriteArgs shorthands cmdline (next # rest)
            | None \<Rightarrow> arg # rewriteArgs shorthands cmdline (next # rest))
      else arg # rewriteArgs shorthands cmdline (next # rest))"

definition handleCommandLineShorthands :: "session \<Rightarrow> session outcome" where
  "handleCommandLineShorthands s =
     (if commandLineShorthands s = {} then Return s
      else (case osArgs s of
              [] \<Rightarrow> Panic
            | arg0 # rest \<Rightarrow>
                Return (s\<lparr>osArgs := arg0 # rewriteArgs (flagShorthands s) (commandLineShorthands s) rest\<rparr>)))"

text \<open>
  \<open>Parse\<close>, up to the point where it starts the signal handler and the timer. A second
  call panics; a failed merge pass ends the process with status 1, \<open>-dumpflags\<close> with
  status 0 after the dump, a callback registered for an undefined flag with status 1.
\<close>

definition Parse :: "nat \<Rightarrow> world \<Rightarrow> session \<Rightarrow> session outcome" where
  "Parse fuel w s =
     (if parsed s then Panic
      else (case handleCommandLineShorthands s of
              Panic \<Rightarrow> Panic
            | Exit c \<Rightarrow> Exit c
            | NoFuel \<Rightarrow> NoFuel
            | Return s \<Rightarrow>
                (let s = s\<lparr>parsed := True\<rparr> in
                 case flagParse w (osArgs s) (flags s) of
                   None \<Rightarrow> Exit 2
                 | Some fs \<Rightarrow>
                     (case parseConfigFlags fuel w (s\<lparr>flags := fs\<rparr>) of
                        Panic \<Rightarrow> Panic
                      | Exit c \<Rightarrow> Exit c
                      | NoFuel \<Rightarrow> NoFuel
                      | Return (s, Inl e) \<Rightarrow> Exit 1
                      | Return (s, Inr oldFlagValues) \<Rightarrow>
                          if boolVar (flags s) ''dumpflags'' then Exit 0
                          else if \<exists>flagName \<in> set (flagChangeCallbacks s).
                                    Lookup (flags s) flagName = None
                          then Exit 1
                          else Return (s\<lparr>Generation := incr (Generation s)\<rparr>)))))"

text \<open>A run of reloads after \<open>Parse\<close>, each with the sources as they are at that time.\<close>

fun reloads :: "(nat \<times> world) list \<Rightarrow> session \<Rightarrow> session outcome" where
  "reloads [] s = Return s"
| "reloads ((fuel, w) # rs) s =
     (case updateConfig fuel w s of
        Return s \<Rightarrow> reloads rs s
      | r \<Rightarrow> r)"

section \<open>The dump\<close>

text \<open>\<open>flag.VisitAll\<close> visits the flags in the order of their names.\<close>

definition VisitAll :: "FlagSet \<Rightarrow> (string \<times> Flag) list" where
  "VisitAll fs = sort_key fst (formal fs)"

text \<open>What \<open>dumpFlags\<close> prints.\<close>

definition dumpFlags :: "session \<Rightarrow> string" where
  "dumpFlags s =
     concat (map (\<lambda>(name, f).
                    if name \<in> flagsToExcludeFromDump s then []
                    else name @ '' = '' @ quoteValue (ValueString f) @ ''  # '' @
                         escapeUsage (Usage f) @ [newline])
                 (VisitAll (flags s)))"

section \<open>Example sources and registries\<close>

text \<open>
  The flags of the examples have the flag package's string and boolean values. The
  registry of an example holds the package's own string and boolean flags and the flags of
  the application; the package's flag \<open>configUpdateInterval\<close>, whose value is a duration that
  nothing in the model reads, is left out.
\<close>

definition stringFlag :: "string \<Rightarrow> string \<Rightarrow> Flag" where
  "stringFlag v usage = \<lparr>Usage = usage, ValueString = v, ValueSet = stringValueSet\<rparr>"

definition boolFlag :: "bool \<Rightarrow> string \<Rightarrow> Flag" where
  "boolFlag b usage =
     \<lparr>Usage = usage, ValueString = (if b then ''true'' else ''false''), ValueSet = boolValueSet\<rparr>"

definition packageFlags :: "string \<Rightarrow> (string \<times> Flag) list" where
  "packageFlags config =
     [(''allowMissingConfig'', boolFlag False ''Do not terminate if the ini file cannot be read.''),
      (''allowUnknownFlags'', boolFlag False ''Do not terminate if ini file contains unknown flags.''),
      (''config'', stringFlag config ''Path to ini config.''),
      (''dumpflags'', boolFlag False ''Dumps values for all flags.''),
      (''unsecure'', boolFlag False ''Allow unsecure communication.'')]"

text \<open>Go's \<open>%q\<close> of a string of printable ASCII characters other than the double quote
  and the backslash puts it between double quotes.\<close>

definition plainQ :: "string \<Rightarrow> string" where
  "plainQ v = [dquote] @ v @ [dquote]"

text \<open>A world of local files: each opens and is read to its end. The examples use
  absolute paths only, so \<open>pathJoinDir\<close> is never asked; the command line is taken as
  parsed already.\<close>

definition localFiles :: "(string \<times> string) list \<Rightarrow> world" where
  "localFiles files =
     \<lparr>osOpen = (\<lambda>p. map_option (\<lambda>bytes. (bytes, EOF)) (map_of files p)),
      httpGet = (\<lambda>u. None),
      urlResolve = (\<lambda>base rel. None),
      pathJoinDir = (\<lambda>base rel. rel),
      sprintfQ = plainQ,
      flagParse = (\<lambda>args fs. Some fs)\<rparr>"

text \<open>A world with one remote server, which answers every request with a status and
  a body.\<close>

definition remoteServer :: "nat \<Rightarrow> string \<Rightarrow> world" where
  "remoteServer status body =
     \<lparr>osOpen = (\<lambda>p. None),
      httpGet = (\<lambda>u. Some (status, body, EOF)),
      urlResolve = (\<lambda>base rel. None),
      pathJoinDir = (\<lambda>base rel. rel),
      sprintfQ = plainQ,
      flagParse = (\<lambda>args fs. Some fs)\<rparr>"

text \<open>The state of the package before \<open>Parse\<close>, over the given flags.\<close>

definition newSession :: "(string \<times> Flag) list \<Rightarrow> string set \<Rightarrow> session" where
  "newSession fl set_flags =
     \<lparr>flags = \<lparr>formal = fl, actual = set_flags\<rparr>,
      importStack = [],
      parsed = False,
      Generation = 0,
      flagShorthands = Map.empty,
      commandLineShorthands = {},
      flagChangeCallbacks = [],
      flagsToExcludeFromDump =
        {''config'', ''dumpflags'', ''allowUnknownFlags'', ''allowMissingConfig'',
         ''configUpdateInterval'', ''unsecure''},
      osArgs = [''/bin/app'']\<rparr>"

definition lines :: "string list \<Rightarrow> string" where
  "lines ls = concat (map (\<lambda>l. l @ [newline]) ls)"

text \<open>The value of a flag after a pass that returned; the empty string otherwise.\<close>

definition valueAfter :: "(session \<times> 'a) outcome \<Rightarrow> string \<Rightarrow> string" where
  "valueAfter r name = (case r of Return (s, x) \<Rightarrow> stringVar (flags s) name | _ \<Rightarrow> [])"

definition resultOf :: "(session \<times> 'a) outcome \<Rightarrow> 'a option" where
  "resultOf r = (case r of Return (s, x) \<Rightarrow> Some x | _ \<Rightarrow> None)"

text \<open>The result of a call that returned.\<close>

definition returned :: "'a outcome \<Rightarrow> 'a option" where
  "returned r = (case r of Return x \<Rightarrow> Some x | _ \<Rightarrow> None)"

text \<open>A world in which \<open>flag.Parse()\<close> finds the given flags on the command line and
  sets each of them through the flag set.\<close>

definition commandLine :: "(string \<times> string) list \<Rightarrow> world \<Rightarrow> world" where
  "commandLine given w = w\<lparr>flagParse := (\<lambda>args fs. Some (restore given fs))\<rparr>"

text \<open>
  An application with the string flags \<open>x\<close> and \<open>y\<close>, started with
  \<open>-config=/c.ini -x=cmd\<close>; the config source sets both flags, and is changed before a
  reload.
\<close>

definition appSession :: session where
  "appSession =
     newSession (packageFlags [] @ [(''x'', stringFlag ''dx'' ''usage of x''),
                                    (''y'', stringFlag ''dy'' ''usage of y'')]) {}"

definition appWorld :: "string \<Rightarrow> world" where
  "appWorld v =
     commandLine [(''config'', ''/c.ini''), (''x'', ''cmd'')]
       (localFiles [(''/c.ini'', lines [''x = '' @ v, ''y = '' @ v])])"

definition appParsedFlags :: FlagSet where
  "appParsedFlags = restore [(''config'', ''/c.ini''), (''x'', ''cmd'')] (flags appSession)"

definition appAfterParse :: session where
  "appAfterParse = the (returned (Parse 1 (appWorld ''file1'') appSession))"

definition appAfterReload :: session where
  "appAfterReload = the (returned (reloads [(1, appWorld ''file2'')] appAfterParse))"

text \<open>
  An application with the string flag \<open>x\<close>, whose value is \<open>a\<close> and which was not set on
  the command line, after \<open>flag.Parse()\<close> of \<open>-config=/c.ini\<close>; a config source that sets
  \<open>x\<close> and then names an unknown flag; and a later source that sets \<open>x\<close> only.
\<close>

definition failSession :: session where
  "failSession = newSession (packageFlags ''/c.ini'' @ [(''x'', stringFlag ''a'' ''usage'')]) {''config''}"

definition failWorld :: world where
  "failWorld = localFiles [(''/c.ini'', lines [''x = b'', ''nosuchflag = 1''])]"

definition laterWorld :: world where
  "laterWorld = localFiles [(''/c.ini'', lines [''x = c''])]"

definition failArgs :: "flagArg list" where
  "failArgs =
     [\<lparr>Key = ''x'', Value = ''b'', FilePath = ''/c.ini'', LineNum = 1, Comment = []\<rparr>,
      \<lparr>Key = ''nosuchflag'', Value = ''1'', FilePath = ''/c.ini'', LineNum = 2, Comment = []\<rparr>]"

definition failMerge :: "FlagSet \<times> (string \<times> string) list \<times> bool" where
  "failMerge =
     mergeArgs (flagShorthands failSession) (getMissingFlags (flags failSession)) failArgs
       (flags failSession, [], True)"

text \<open>The application of \<open>appSession\<close> while it runs: after \<open>Parse\<close> with the sources of
  \<open>appWorld ''file1''\<close>.\<close>

definition runningSession :: session where
  "runningSession =
     (newSession (packageFlags ''/c.ini'' @ [(''x'', stringFlag ''cmd'' ''usage of x''),
                                             (''y'', stringFlag ''file1'' ''usage of y'')])
        {''config'', ''x''})\<lparr>parsed := True, Generation := 1\<rparr>"

text \<open>A pending multi-line directive for \<open>m\<close>, as the first two lines of the multi-line
  example leave it.\<close>

definition pendingM :: flagArg where
  "pendingM = \<lparr>Key = ''m'', Value = ''line1,line2'', FilePath = ''/m.ini'', LineNum = 1, Comment = []\<rparr>"

text \<open>The import line \<open>#import "path"\<close>, and the same with a semicolon for the hash.\<close>

definition importOf :: "string \<Rightarrow> string" where
  "importOf path = ''#import '' @ [dquote] @ path @ [dquote]"

definition semicolonImportOf :: "string \<Rightarrow> string" where
  "semicolonImportOf path = '';import '' @ [dquote] @ path @ [dquote]"

text \<open>A base source, and a source that imports it and then sets \<open>flag2\<close>.\<close>

definition importWorld :: world where
  "importWorld =
     localFiles [(''/base.ini'', lines [''flag1 = value1'', ''flag2 = value2'']),
                 (''/dev.ini'', lines [importOf ''/base.ini'', ''flag2 = foobar''])]"

definition importSession :: session where
  "importSession =
     newSession (packageFlags ''/dev.ini'' @ [(''flag1'', stringFlag ''default1'' ''usage of flag1''),
                                               (''flag2'', stringFlag ''default2'' ''usage of flag2'')])
       {''config''}"

definition baseArgs :: "flagArg list" where
  "baseArgs =
     [\<lparr>Key = ''flag1'', Value = ''value1'', FilePath = ''/base.ini'', LineNum = 1, Comment = []\<rparr>,
      \<lparr>Key = ''flag2'', Value = ''value2'', FilePath = ''/base.ini'', LineNum = 2, Comment = []\<rparr>]"

text \<open>The import example while it runs: the state that \<open>Parse\<close> leaves.\<close>

definition importRunning :: session where
  "importRunning = the (returned (Parse 2 importWorld importSession))"

text \<open>The names and the values of the flags of a registry.\<close>

definition flagValues :: "FlagSet \<Rightarrow> (string \<times> string) list" where
  "flagValues fs = map (\<lambda>(name, f). (name, ValueString f)) (formal fs)"

text \<open>A source that opens a multi-line directive for \<open>x\<close> and then imports a source
  that sets \<open>x\<close>.\<close>

definition pendingWorld :: world where
  "pendingWorld =
     localFiles [(''/a.ini'', lines [''x{,} = 1'', importOf ''/b.ini'']),
                 (''/b.ini'', lines [''x = 2''])]"

text \<open>A source whose only line names another source after a semicolon.\<close>

definition semicolonWorld :: world where
  "semicolonWorld =
     localFiles [(''/a.ini'', lines [semicolonImportOf ''/b.ini'']),
                 (''/b.ini'', lines [''x = 1''])]"

text \<open>Two sources that import each other.\<close>

definition cycleWorld :: world where
  "cycleWorld =
     localFiles [(''/a.ini'', lines [''x = 1'', importOf ''/b.ini'']),
                 (''/b.ini'', lines [''# the other way round'', importOf ''/a.ini'', ''y = 2''])]"

definition cycleSession :: session where
  "cycleSession =
     newSession (packageFlags ''/a.ini'' @ [(''x'', stringFlag ''0'' ''usage of x''),
                                             (''y'', stringFlag ''0'' ''usage of y'')])
       {''config''}"

text \<open>
  An application whose string flag \<open>x\<close> was set on the command line to the three
  characters \<open>"a"\<close>, and the same application started afresh with \<open>-config=/dump.ini\<close>, the
  flag \<open>x\<close> at its default.
\<close>

definition dumpSession :: session where
  "dumpSession =
     newSession (packageFlags [] @ [(''x'', stringFlag [dquote, CHR ''a'', dquote] ''usage of x'')]) {''x''}"

definition freshSession :: session where
  "freshSession =
     newSession (packageFlags ''/dump.ini'' @ [(''x'', stringFlag ''default'' ''usage of x'')]) {''config''}"

text \<open>The value \<open>unquoteValue\<close> returned, when it returned one.\<close>

definition valueOf :: "(error + string \<times> string) outcome \<Rightarrow> string option" where
  "valueOf r = (case r of Return (Inr (v, cmt)) \<Rightarrow> Some v | _ \<Rightarrow> None)"

section \<open>Unquoting a value with no closing quote\<close>

lemma LastIndex_notin: "c \<notin> set s \<Longrightarrow> LastIndex s c = - 1"
  by (induction s) (auto simp: Let_def)

lemma LastIndex_in: "c \<in> set s \<Longrightarrow> 0 \<le> LastIndex s c"
  by (induction s) (auto simp: Let_def)

text \<open>A trimmed value that starts with a double quote and has no other one: the last
  double quote is the first character, and the slice \<open>v[1:0]\<close> panics.\<close>

lemma unquoteValue_panic:
  assumes "TrimSpace val = dquote # rest" and "dquote \<notin> set rest"
  shows "unquoteValue q val = Panic"
  using assms by (simp add: unquoteValue_def Let_def LastIndex_notin slice_def)

lemma unquoteValue_never_unclosed: "unquoteValue q val \<noteq> Return (Inl UnclosedString)"
proof -
  have "LastIndex v dquote \<noteq> - 1" if "v \<noteq> []" "hd v = dquote" for v
  proof -
    from that have "dquote \<in> set v" by (cases v) auto
    then show ?thesis using LastIndex_in [of dquote v] by simp
  qed
  then show ?thesis
    by (auto simp: unquoteValue_def Let_def split: option.splits)
qed

text \<open>
  C8. A value that starts with a double quote and has no closing quote should make
  \<open>unquoteValue\<close> return the failure of its unclosed-string branch. On the value \<open>"abc\<close> the
  function panics instead, and a source with the line \<open>x = "abc\<close> makes the parse panic;
  no value at all reaches the unclosed-string branch.
\<close>

theorem unquoteValue_unclosed_panics:
  "unquoteValue q ([dquote] @ ''abc'') = Panic \<and>
   getArgsFromConfig 1 (localFiles [(''/c.ini'', lines [''x = '' @ [dquote] @ ''abc''])])
     \<lparr>formal = packageFlags ''/c.ini'', actual = {}\<rparr> [] ''/c.ini'' = Panic \<and>
   unquoteValue q val \<noteq> Return (Inl UnclosedString)"
proof (intro conjI)
  show "unquoteValue q ([dquote] @ ''abc'') = Panic"
    by code_simp
  show "getArgsFromConfig 1 (localFiles [(''/c.ini'', lines [''x = '' @ [dquote] @ ''abc''])])
     \<lparr>formal = packageFlags ''/c.ini'', actual = {}\<rparr> [] ''/c.ini'' = Panic"
    by code_simp
  show "unquoteValue q val \<noteq> Return (Inl UnclosedString)"
    by (rule unquoteValue_never_unclosed)
qed

section \<open>Opening a remote source\<close>

text \<open>A plaintext source is refused unless \<open>unsecure\<close> is set; otherwise the source is
  fetched, and a response whose status is not 200 gives neither a reader nor an error.\<close>

lemma openConfigFile_plaintext_refused:
  assumes "isHTTP path" and "\<not> isSecure path" and "\<not> boolVar fs ''unsecure''"
  shows "openConfigFile w fs path = (None, Some UnsecureNotAllowed)"
  using assms by (simp add: openConfigFile_def)

lemma openConfigFile_fetched:
  assumes "isHTTP path" and "isSecure path \<or> boolVar fs ''unsecure''"
  shows "openConfigFile w fs path =
           (case httpGet w path of
              None \<Rightarrow> (None, Some GetFailed)
            | Some (status, body) \<Rightarrow> if status \<noteq> StatusOK then (None, None) else (Some body, None))"
  using assms by (auto simp: openConfigFile_def)

text \<open>
  C9. A fetch whose response status is not a success status should give a fetch failure,
  a non-nil error. For an https source answered with status 404, \<open>openConfigFile\<close> returns
  a nil reader and a nil error, and \<open>getArgsFromConfig\<close> panics on the nil reader.
\<close>

theorem openConfigFile_bad_status_no_error:
  "openConfigFile (remoteServer 404 ''not found'')
     \<lparr>formal = packageFlags ''https://example.com/c.ini'', actual = {''config''}\<rparr>
     ''https://example.com/c.ini'' = (None, None) \<and>
   getArgsFromConfig 1 (remoteServer 404 ''not found'')
     \<lparr>formal = packageFlags ''https://example.com/c.ini'', actual = {''config''}\<rparr>
     [] ''https://example.com/c.ini'' = Panic"
  by code_simp

section \<open>Rolling back a failed pass\<close>

text \<open>
  C2. A failed merge pass should leave every flag with the value it had before the pass,
  also when a flag is named by more than one directive. The flag \<open>x\<close> has the value \<open>a\<close>
  and is not set on the command line; the source sets it to \<open>b\<close>, then to \<open>c\<close>, then names
  an unknown flag. The pass fails, and \<open>x\<close> is left with the value \<open>b\<close>.
\<close>

theorem rollback_duplicate_flag:
  "resultOf (parseConfigFlags 1
      (localFiles [(''/c.ini'', lines [''x = b'', ''x = c'', ''nosuchflag = 1''])])
      (newSession (packageFlags ''/c.ini'' @ [(''x'', stringFlag ''a'' ''usage'')]) {''config''}))
     = Some (Inl MergeFailed) \<and>
   valueAfter (parseConfigFlags 1
      (localFiles [(''/c.ini'', lines [''x = b'', ''x = c'', ''nosuchflag = 1''])])
      (newSession (packageFlags ''/c.ini'' @ [(''x'', stringFlag ''a'' ''usage'')]) {''config''})) ''x''
     = ''b'' \<and>
   stringVar (flags (newSession (packageFlags ''/c.ini'' @ [(''x'', stringFlag ''a'' ''usage'')])
      {''config''})) ''x'' = ''a''"
  by code_simp

section \<open>What a merge pass leaves alone\<close>


lemma valueSet_frame:
  assumes "valueSet fs key f v = (fs', accepted)"
  shows "(name \<noteq> key \<longrightarrow> Lookup fs' name = Lookup fs name) \<and> actual fs' = actual fs"
  using assms
  by (auto simp: valueSet_def Lookup_def update_conv' split: prod.splits)

lemma mergeArg_cases:
  assumes "mergeArg sh missing arg (fs, old, ok) = (fs', old', ok')"
  shows "(fs' = fs \<and> old' = old) \<or>
         (\<exists>key f accepted. key \<in> missing \<and> Lookup fs key = Some f \<and>
            valueSet fs key f (Value arg) = (fs', accepted) \<and>
            (old' = old \<or> old' = AList.update key (ValueString f) old))"
proof -
  define found where "found =
    (case Lookup fs (Key arg) of
       Some f \<Rightarrow> (Some f, Key arg)
     | None \<Rightarrow>
         (case sh (Key arg) of
            Some fullName \<Rightarrow> (Lookup fs fullName, fullName)
          | None \<Rightarrow> (None, Key arg)))"
  obtain fo key where found: "found = (fo, key)"
    by (cases found)
  have look: "Lookup fs key = Some f" if "fo = Some f" for f
    using found that by (auto simp: found_def split: option.splits)
  show ?thesis
  proof (cases fo)
    case None
    with assms found show ?thesis
      by (simp add: mergeArg_def found_def [symmetric])
  next
    case (Some f)
    show ?thesis
    proof (cases "key \<in> missing \<and> ValueString f \<noteq> Value arg")
      case False
      with assms found Some show ?thesis
        by (auto simp: mergeArg_def found_def [symmetric] Let_def split: if_splits)
    next
      case True
      obtain fs1 accepted where vs: "valueSet fs key f (Value arg) = (fs1, accepted)"
        by (cases "valueSet fs key f (Value arg)")
      from assms found Some True vs have "fs' = fs1"
        and "old' = old \<or> old' = AList.update key (ValueString f) old"
        by (auto simp: mergeArg_def found_def [symmetric] Let_def split: if_splits)
      with True vs look [OF Some] show ?thesis
        by blast
    qed
  qed
qed

lemma mergeArg_frame:
  assumes "mergeArg sh missing arg (fs, old, ok) = (fs', old', ok')"
  shows "(name \<notin> missing \<longrightarrow> Lookup fs' name = Lookup fs name) \<and> actual fs' = actual fs \<and>
         (fst ` set old \<subseteq> missing \<longrightarrow> fst ` set old' \<subseteq> missing)"
proof -
  from mergeArg_cases [OF assms] consider
    (unchanged) "fs' = fs" "old' = old"
  | (changed) key f accepted where "key \<in> missing"
      "valueSet fs key f (Value arg) = (fs', accepted)"
      "old' = old \<or> old' = AList.update key (ValueString f) old"
    by blast
  then show ?thesis
  proof cases
  case unchanged
  then show ?thesis by simp
next
  case changed
  note key = changed(1) and vs = changed(2) and old' = changed(3)
  have "fst ` set old' \<subseteq> missing" if sub: "fst ` set old \<subseteq> missing"
    using old'
  proof
    assume "old' = old"
    with sub show ?thesis by simp
  next
    assume "old' = AList.update key (ValueString f) old"
    with sub key show ?thesis by (simp add: dom_update)
  qed
  then have "fst ` set old \<subseteq> missing \<longrightarrow> fst ` set old' \<subseteq> missing"
    by blast
  with valueSet_frame [OF vs, of name] key show ?thesis
    by auto
qed
qed

lemma mergeArgs_frame:
  "mergeArgs sh missing parsedArgs (fs, old, ok) = (fs', old', ok') \<Longrightarrow>
   (name \<notin> missing \<longrightarrow> Lookup fs' name = Lookup fs name) \<and> actual fs' = actual fs \<and>
   (fst ` set old \<subseteq> missing \<longrightarrow> fst ` set old' \<subseteq> missing)"
proof (induction parsedArgs arbitrary: fs old ok)
  case Nil
  then show ?case by simp
next
  case (Cons arg parsedArgs)
  obtain fs1 old1 ok1 where step: "mergeArg sh missing arg (fs, old, ok) = (fs1, old1, ok1)"
    by (cases "mergeArg sh missing arg (fs, old, ok)") auto
  with Cons.prems have "mergeArgs sh missing parsedArgs (fs1, old1, ok1) = (fs', old', ok')"
    by simp
  from Cons.IH [OF this] mergeArg_frame [OF step, of name] show ?case
    by simp
qed

lemma flagSet_frame:
  "(name \<noteq> k \<longrightarrow> Lookup (fst (flagSet fs k v)) name = Lookup fs name) \<and>
   actual fs \<subseteq> actual (fst (flagSet fs k v))"
proof (cases "Lookup fs k")
  case None
  then show ?thesis by (simp add: flagSet_def)
next
  case (Some f)
  obtain fs1 accepted where vs: "valueSet fs k f v = (fs1, accepted)"
    by (cases "valueSet fs k f v") auto
  from valueSet_frame [OF vs, of name] Some vs show ?thesis
    by (auto simp: flagSet_def Lookup_def)
qed

lemma restore_frame:
  "(name \<notin> fst ` set old \<longrightarrow> Lookup (restore old fs) name = Lookup fs name) \<and>
   actual fs \<subseteq> actual (restore old fs)"
proof (induction old arbitrary: fs)
  case Nil
  show ?case by simp
next
  case (Cons kv old)
  obtain k v where kv: "kv = (k, v)" by (cases kv)
  from Cons.IH [of "fst (flagSet fs k v)"] flagSet_frame [of name k fs v] kv show ?case
    by auto
qed


lemma parseConfigFlags_keeps:
  assumes "parseConfigFlags fuel w s = Return (s', r)" and "name \<in> actual (flags s)"
  shows "Lookup (flags s') name = Lookup (flags s) name \<and> name \<in> actual (flags s')"
proof -
  let ?missing = "getMissingFlags (flags s)"
  from assms(2) have nm: "name \<notin> ?missing" by (simp add: getMissingFlags_def)
  have merged: "Lookup (restore old fs) name = Lookup (flags s) name \<and> name \<in> actual (restore old fs)
      \<and> Lookup fs name = Lookup (flags s) name \<and> name \<in> actual fs"
    if m: "mergeArgs (flagShorthands s) ?missing parsedArgs (flags s, [], True) = (fs, old, ok)"
    for parsedArgs fs old ok
  proof -
    from mergeArgs_frame [OF m, of name] nm assms(2)
    have 1: "Lookup fs name = Lookup (flags s) name" and 2: "name \<in> actual fs"
      and 3: "fst ` set old \<subseteq> ?missing" by auto
    from 3 nm have "name \<notin> fst ` set old" by auto
    with restore_frame [of name old fs] 1 2 show ?thesis by auto
  qed
  from assms(1) show ?thesis
    using assms(2) merged
    by (auto simp: parseConfigFlags_def
        split: if_splits option.splits outcome.splits sum.splits prod.splits)
qed


lemma parseConfigFlags_session:
  assumes "parseConfigFlags fuel w s = Return (s', r)"
  shows "Generation s' = Generation s"
  using assms
  by (auto simp: parseConfigFlags_def
      split: if_splits option.splits outcome.splits sum.splits prod.splits)

lemma updateConfig_keeps:
  assumes "updateConfig fuel w s = Return s'" and "name \<in> actual (flags s)"
  shows "Lookup (flags s') name = Lookup (flags s) name \<and> name \<in> actual (flags s')"
proof -
  from assms(1) obtain s1 r where pass: "parseConfigFlags fuel w s = Return (s1, r)"
    and s': "flags s' = flags s1"
    by (auto simp: updateConfig_def split: outcome.splits sum.splits if_splits)
  from parseConfigFlags_keeps [OF pass assms(2)] s' show ?thesis
    by simp
qed

lemma reloads_keeps:
  "reloads rs s = Return s' \<Longrightarrow> name \<in> actual (flags s) \<Longrightarrow>
   Lookup (flags s') name = Lookup (flags s) name \<and> name \<in> actual (flags s')"
proof (induction rs arbitrary: s)
  case Nil
  then show ?case by simp
next
  case (Cons r rs)
  obtain fuel w where r: "r = (fuel, w)" by (cases r)
  from Cons.prems(1) r obtain s1 where up: "updateConfig fuel w s = Return s1"
    and rest: "reloads rs s1 = Return s'"
    by (auto split: outcome.splits)
  from updateConfig_keeps [OF up Cons.prems(2)] Cons.IH [OF rest] show ?case
    by simp
qed

lemma Parse_keeps:
  assumes "Parse fuel w s0 = Return s1"
    and "handleCommandLineShorthands s0 = Return sh"
    and "flagParse w (osArgs sh) (flags sh) = Some fs0"
    and "name \<in> actual fs0"
  shows "Lookup (flags s1) name = Lookup fs0 name \<and> name \<in> actual (flags s1)"
proof -
  let ?s = "sh\<lparr>parsed := True, flags := fs0\<rparr>"
  from assms(1-3) obtain s2 old where pass: "parseConfigFlags fuel w ?s = Return (s2, Inr old)"
    and s1: "flags s1 = flags s2"
    by (auto simp: Parse_def Let_def split: if_splits outcome.splits sum.splits)
  from assms(4) have "name \<in> actual (flags ?s)" by simp
  from parseConfigFlags_keeps [OF pass this] s1 show ?thesis
    by simp
qed

text \<open>
  C1. A flag that was set on the command line is in \<open>actual\<close> when \<open>flag.Parse()\<close> returns.
  No merge pass changes the entry of a flag that is in \<open>actual\<close> when the pass starts, and
  the flag stays in \<open>actual\<close>: this holds for a single pass, whatever the sources hold and
  whether the pass succeeds or fails, for the pass of \<open>Parse\<close>, and for every run of
  reloads after it.
\<close>

theorem command_line_value_kept:
  "(name \<in> actual (flags s) \<and> parseConfigFlags fuel w s = Return (s', r) \<longrightarrow>
      Lookup (flags s') name = Lookup (flags s) name \<and> name \<in> actual (flags s')) \<and>
   (handleCommandLineShorthands s0 = Return sh \<and> flagParse w0 (osArgs sh) (flags sh) = Some fs0 \<and>
    name \<in> actual fs0 \<and> Parse fuel0 w0 s0 = Return s1 \<and> reloads rs s1 = Return s2 \<longrightarrow>
      Lookup (flags s1) name = Lookup fs0 name \<and> Lookup (flags s2) name = Lookup fs0 name)"
proof (intro conjI impI)
  assume "name \<in> actual (flags s) \<and> parseConfigFlags fuel w s = Return (s', r)"
  then show "Lookup (flags s') name = Lookup (flags s) name" and "name \<in> actual (flags s')"
    using parseConfigFlags_keeps [of fuel w s s' r name] by simp_all
next
  assume a: "handleCommandLineShorthands s0 = Return sh \<and> flagParse w0 (osArgs sh) (flags sh) = Some fs0 \<and>
    name \<in> actual fs0 \<and> Parse fuel0 w0 s0 = Return s1 \<and> reloads rs s1 = Return s2"
  then have 1: "Lookup (flags s1) name = Lookup fs0 name \<and> name \<in> actual (flags s1)"
    using Parse_keeps [of fuel0 w0 s0 s1 sh fs0 name] by simp
  then show "Lookup (flags s1) name = Lookup fs0 name" ..
  from a 1 reloads_keeps [of rs s1 s2 name] show "Lookup (flags s2) name = Lookup fs0 name"
    by simp
qed

section \<open>The generation counter\<close>

lemma incr_no_wrap: "- (2 ^ 63) \<le> i \<Longrightarrow> i < 2 ^ 63 - 1 \<Longrightarrow> incr i = i + 1"
proof -
  assume "- (2 ^ 63) \<le> i" "i < 2 ^ 63 - 1"
  then have "0 \<le> i + 1 + 2 ^ 63" "i + 1 + 2 ^ 63 < (2 ^ 64 :: int)"
    by simp_all
  then have "(i + 1 + 2 ^ 63) mod 2 ^ 64 = i + 1 + 2 ^ 63"
    by (rule mod_pos_pos_trivial)
  then show ?thesis
    by (simp add: incr_def)
qed

lemma Parse_Generation:
  assumes "Parse fuel w s = Return s'"
  shows "Generation s' = incr (Generation s)"
proof -
  from assms obtain sh fs s2 old where sh: "handleCommandLineShorthands s = Return sh"
    and pass: "parseConfigFlags fuel w (sh\<lparr>parsed := True, flags := fs\<rparr>) = Return (s2, Inr old)"
    and s': "s' = s2\<lparr>Generation := incr (Generation s2)\<rparr>"
    by (auto simp: Parse_def Let_def split: if_splits outcome.splits sum.splits option.splits)
  from sh have "Generation sh = Generation s"
    by (auto simp: handleCommandLineShorthands_def split: if_splits list.splits)
  moreover from parseConfigFlags_session [OF pass] have "Generation s2 = Generation sh"
    by simp
  ultimately show ?thesis using s' by simp
qed

lemma updateConfig_Generation:
  assumes "updateConfig fuel w s = Return s'"
  shows "Generation s' =
           (if \<exists>old. resultOf (parseConfigFlags fuel w s) = Some (Inr old) \<and> old \<noteq> []
            then incr (Generation s) else Generation s)"
proof -
  from assms obtain s1 r where pass: "parseConfigFlags fuel w s = Return (s1, r)"
    by (auto simp: updateConfig_def split: outcome.splits)
  note gen = parseConfigFlags_session [OF pass]
  show ?thesis
  proof (cases r)
    case (Inl e)
    with assms pass gen show ?thesis
      by (simp add: updateConfig_def resultOf_def)
  next
    case (Inr old)
    with assms pass gen show ?thesis
      by (auto simp: updateConfig_def resultOf_def)
  qed
qed

lemma incr_range: "- (2 ^ 63) \<le> incr i \<and> incr i < 2 ^ 63"
proof -
  have "0 \<le> (i + 1 + 2 ^ 63) mod 2 ^ 64" and "(i + 1 + 2 ^ 63) mod 2 ^ 64 < (2 ^ 64 :: int)"
    by simp_all
  then show ?thesis
    by (simp add: incr_def)
qed

lemma reloads_Generation:
  "reloads rs s = Return s' \<Longrightarrow> - (2 ^ 63) \<le> Generation s \<Longrightarrow>
   Generation s + int (length rs) < 2 ^ 63 \<Longrightarrow>
   Generation s \<le> Generation s' \<and> Generation s' \<le> Generation s + int (length rs)"
proof (induction rs arbitrary: s)
  case Nil
  then show ?case by simp
next
  case (Cons r rs)
  obtain fuel w where r: "r = (fuel, w)" by (cases r)
  from Cons.prems(1) r obtain s1 where up: "updateConfig fuel w s = Return s1"
    and rest: "reloads rs s1 = Return s'"
    by (auto split: outcome.splits)
  from Cons.prems(3) have small: "Generation s < 2 ^ 63 - 1"
    by simp
  from updateConfig_Generation [OF up] incr_no_wrap [OF Cons.prems(2) small]
  have step: "Generation s \<le> Generation s1 \<and> Generation s1 \<le> Generation s + 1"
    by (simp split: if_splits)
  with Cons.prems have "- (2 ^ 63) \<le> Generation s1" "Generation s1 + int (length rs) < 2 ^ 63"
    by simp_all
  from Cons.IH [OF rest this] step show ?case
    by simp
qed

text \<open>
  C3. A reload of sources that did not change, and that changes no flag, increments
  \<open>Generation\<close>. The base source sets \<open>flag1\<close> and \<open>flag2\<close>, and the source that imports it
  sets \<open>flag2\<close> again. \<open>Parse\<close> leaves the counter at 1 and \<open>flag2\<close> at \<open>foobar\<close>. In a reload
  the directive of the base source sets \<open>flag2\<close> to \<open>value2\<close> and the later directive sets
  it back to \<open>foobar\<close>; each of them records the value it replaced, so the pass returns the
  entry of \<open>flag2\<close> with the value \<open>value2\<close>, which the flag had in between, and
  \<open>updateConfig\<close> finds a change set that is not empty. Every flag has the value it had
  before the reload, and the counter goes from 1 to 2, and to 3 with the next reload.
\<close>

theorem reload_of_unchanged_source_increments:
  "returned (Parse 2 importWorld importSession) \<noteq> None \<and>
   Generation importRunning = 1 \<and>
   flagValues (flags importRunning) =
     [(''allowMissingConfig'', ''false''), (''allowUnknownFlags'', ''false''),
      (''config'', ''/dev.ini''), (''dumpflags'', ''false''), (''unsecure'', ''false''),
      (''flag1'', ''value1''), (''flag2'', ''foobar'')] \<and>
   resultOf (parseConfigFlags 2 importWorld importRunning) = Some (Inr [(''flag2'', ''value2'')]) \<and>
   returned (updateConfig 2 importWorld importRunning) \<noteq> None \<and>
   flagValues (flags (the (returned (updateConfig 2 importWorld importRunning)))) =
     flagValues (flags importRunning) \<and>
   Generation (the (returned (updateConfig 2 importWorld importRunning))) = 2 \<and>
   returned (reloads [(2, importWorld), (2, importWorld)] importRunning) \<noteq> None \<and>
   flagValues (flags (the (returned (reloads [(2, importWorld), (2, importWorld)] importRunning)))) =
     flagValues (flags importRunning) \<and>
   Generation (the (returned (reloads [(2, importWorld), (2, importWorld)] importRunning))) = 3"
  by code_simp

section \<open>Rollback through the flag set\<close>

lemma flagSet_accepted:
  assumes "snd (flagSet fs k v)"
  shows "k \<in> actual (fst (flagSet fs k v))"
  using assms
  by (auto simp: flagSet_def split: option.splits prod.splits if_splits)

lemma flagSet_snd_cong:
  assumes "Lookup fs1 k = Lookup fs k"
  shows "snd (flagSet fs1 k v) = snd (flagSet fs k v)"
  using assms
  by (auto simp: flagSet_def valueSet_def split: option.splits prod.splits)

lemma restore_marks:
  "(k, v) \<in> set old \<Longrightarrow> distinct (map fst old) \<Longrightarrow> snd (flagSet fs k v) \<Longrightarrow>
   k \<in> actual (restore old fs)"
proof (induction old arbitrary: fs)
  case Nil
  then show ?case by simp
next
  case (Cons kv old)
  obtain k' v' where kv: "kv = (k', v')" by (cases kv)
  show ?case
  proof (cases "(k, v) = (k', v')")
    case True
    with Cons.prems(3) have "k \<in> actual (fst (flagSet fs k' v'))"
      using flagSet_accepted [of fs k v] by simp
    with restore_frame [of k old "fst (flagSet fs k' v')"] kv show ?thesis
      by auto
  next
    case False
    with Cons.prems(1) kv have mem: "(k, v) \<in> set old" by auto
    with Cons.prems(2) kv have "k \<noteq> k'" by (auto simp: image_iff)
    with flagSet_frame [of k k' fs v'] have "Lookup (fst (flagSet fs k' v')) k = Lookup fs k"
      by simp
    from flagSet_snd_cong [OF this] Cons.prems(3) have "snd (flagSet (fst (flagSet fs k' v')) k v)"
      by simp
    from Cons.IH [OF mem _ this] Cons.prems(2) kv show ?thesis
      by simp
  qed
qed

lemma mergeArg_distinct:
  assumes "mergeArg sh missing arg (fs, old, ok) = (fs', old', ok')" and "distinct (map fst old)"
  shows "distinct (map fst old')"
  using mergeArg_cases [OF assms(1)] assms(2)
  by (auto simp: distinct_update)


lemma mergeArgs_distinct:
  "mergeArgs sh missing parsedArgs (fs, old, ok) = (fs', old', ok') \<Longrightarrow> distinct (map fst old) \<Longrightarrow>
   distinct (map fst old')"
proof (induction parsedArgs arbitrary: fs old ok)
  case Nil
  then show ?case by simp
next
  case (Cons arg parsedArgs)
  obtain fs1 old1 ok1 where step: "mergeArg sh missing arg (fs, old, ok) = (fs1, old1, ok1)"
    by (cases "mergeArg sh missing arg (fs, old, ok)") auto
  with Cons.prems have "mergeArgs sh missing parsedArgs (fs1, old1, ok1) = (fs', old', ok')"
    by simp
  from Cons.IH [OF this mergeArg_distinct [OF step Cons.prems(2)]] show ?case .
qed

lemma parseConfigFlags_failed:
  assumes "configPathOf w s = Return (Some configPath)" and "configPath \<noteq> []"
    and "getArgsFromConfig fuel w (flags s) (importStack s) configPath = Return (stack, Inr parsedArgs)"
    and "mergeArgs (flagShorthands s) (getMissingFlags (flags s)) parsedArgs (flags s, [], True)
           = (fs, old, False)"
  shows "parseConfigFlags fuel w s
           = Return (s\<lparr>importStack := stack, flags := restore old fs\<rparr>, Inl MergeFailed)"
  using assms by (simp add: parseConfigFlags_def)

text \<open>
  C10. A failed merge pass restores the flags of \<open>oldFlagValues\<close> with \<open>flag.Set\<close>, which
  enters a flag in \<open>actual\<close> when the flag's value accepts the old value. Such a flag was
  not in \<open>actual\<close> before the pass and is in it afterwards; in every later reload it is not
  among the missing flags, and no later reload changes its entry.
\<close>

theorem rollback_marks_flag_as_set:
  assumes "configPathOf w s = Return (Some configPath)" and "configPath \<noteq> []"
    and "getArgsFromConfig fuel w (flags s) (importStack s) configPath = Return (stack, Inr parsedArgs)"
    and "mergeArgs (flagShorthands s) (getMissingFlags (flags s)) parsedArgs (flags s, [], True)
           = (fs, old, False)"
    and "(k, v) \<in> set old"
    and "snd (flagSet fs k v)"
  shows "\<exists>s1. parseConfigFlags fuel w s = Return (s1, Inl MergeFailed) \<and>
           k \<notin> actual (flags s) \<and> k \<in> actual (flags s1) \<and>
           (\<forall>rs s2. reloads rs s1 = Return s2 \<longrightarrow>
              k \<notin> getMissingFlags (flags s2) \<and> Lookup (flags s2) k = Lookup (flags s1) k)"
proof -
  let ?s1 = "s\<lparr>importStack := stack, flags := restore old fs\<rparr>"
  have pass: "parseConfigFlags fuel w s = Return (?s1, Inl MergeFailed)"
    using assms(1-4) by (rule parseConfigFlags_failed)
  from mergeArgs_frame [OF assms(4), of k] have "fst ` set old \<subseteq> getMissingFlags (flags s)"
    by simp
  with assms(5) have "k \<in> getMissingFlags (flags s)"
    by force
  then have before: "k \<notin> actual (flags s)"
    by (simp add: getMissingFlags_def)
  from mergeArgs_distinct [OF assms(4)] have "distinct (map fst old)"
    by simp
  from restore_marks [OF assms(5) this assms(6)] have after: "k \<in> actual (flags ?s1)"
    by simp
  have later: "k \<notin> getMissingFlags (flags s2) \<and> Lookup (flags s2) k = Lookup (flags ?s1) k"
    if "reloads rs ?s1 = Return s2" for rs s2
    using reloads_keeps [OF that after] by (simp add: getMissingFlags_def)
  from pass before after later show ?thesis
    by blast
qed

section \<open>Examples for the merge pass and the rollback\<close>

lemma returned_Return: "returned r \<noteq> None \<Longrightarrow> r = Return (the (returned r))"
  by (cases r) (simp_all add: returned_def)

lemma updateConfig_returned:
  "resultOf (parseConfigFlags fuel w s) = Some x \<Longrightarrow> returned (updateConfig fuel w s) \<noteq> None"
  by (auto simp: resultOf_def updateConfig_def returned_def split: outcome.splits sum.splits)

theorem command_line_value_kept_witness:
  "''x'' \<in> actual appParsedFlags \<and>
   returned (Parse 1 (appWorld ''file1'') appSession) \<noteq> None \<and>
   returned (reloads [(1, appWorld ''file2'')] appAfterParse) \<noteq> None \<and>
   Lookup (flags appAfterParse) ''x'' = Lookup appParsedFlags ''x'' \<and>
   Lookup (flags appAfterReload) ''x'' = Lookup appParsedFlags ''x'' \<and>
   stringVar appParsedFlags ''x'' = ''cmd'' \<and>
   stringVar (flags appAfterReload) ''y'' = ''file2'' \<and>
   ''x'' \<in> actual (flags runningSession) \<and>
   returned (parseConfigFlags 1 (appWorld ''file2'') runningSession) \<noteq> None \<and>
   Lookup (flags (fst (the (returned (parseConfigFlags 1 (appWorld ''file2'') runningSession))))) ''x''
     = Lookup (flags runningSession) ''x''"
proof -
  let ?pass = "the (returned (parseConfigFlags 1 (appWorld ''file2'') runningSession))"
  have hp: "''x'' \<in> actual (flags runningSession) \<and>
            returned (parseConfigFlags 1 (appWorld ''file2'') runningSession) \<noteq> None"
    by code_simp
  then have "parseConfigFlags 1 (appWorld ''file2'') runningSession = Return (fst ?pass, snd ?pass)"
    by (simp add: returned_Return)
  with hp have hp': "''x'' \<in> actual (flags runningSession) \<and>
      parseConfigFlags 1 (appWorld ''file2'') runningSession = Return (fst ?pass, snd ?pass)"
    by simp
  note one = command_line_value_kept [where name = "''x''" and s = runningSession and fuel = 1
      and w = "appWorld ''file2''" and s' = "fst ?pass" and r = "snd ?pass",
      THEN conjunct1, THEN mp, OF hp', THEN conjunct1]
  have sh: "handleCommandLineShorthands appSession = Return appSession"
    by (simp add: handleCommandLineShorthands_def appSession_def newSession_def)
  have fp: "flagParse (appWorld ''file1'') (osArgs appSession) (flags appSession) = Some appParsedFlags"
    by (simp add: appWorld_def commandLine_def appParsedFlags_def)
  have x: "''x'' \<in> actual appParsedFlags \<and> stringVar appParsedFlags ''x'' = ''cmd''"
    by code_simp
  have r1: "returned (Parse 1 (appWorld ''file1'') appSession) \<noteq> None"
    by code_simp
  have r2: "returned (reloads [(1, appWorld ''file2'')] appAfterParse) \<noteq> None \<and>
            stringVar (flags appAfterReload) ''y'' = ''file2''"
    by code_simp
  have p: "Parse 1 (appWorld ''file1'') appSession = Return appAfterParse"
    unfolding appAfterParse_def using r1 by (rule returned_Return)
  have r: "reloads [(1, appWorld ''file2'')] appAfterParse = Return appAfterReload"
    unfolding appAfterReload_def using r2 by (simp add: returned_Return)
  from command_line_value_kept [of "''x''" appAfterParse 1 "appWorld ''file2''" appAfterReload "Inr []"
      appSession appSession "appWorld ''file1''" appParsedFlags 1 appAfterParse
      "[(1, appWorld ''file2'')]" appAfterReload] sh fp x p r
  have "Lookup (flags appAfterParse) ''x'' = Lookup appParsedFlags ''x'' \<and>
        Lookup (flags appAfterReload) ''x'' = Lookup appParsedFlags ''x''"
    by blast
  with x r1 r2 hp one show ?thesis
    by blast
qed

theorem rollback_marks_flag_as_set_witness:
  "configPathOf failWorld failSession = Return (Some ''/c.ini'') \<and>
   getArgsFromConfig 1 failWorld (flags failSession) (importStack failSession) ''/c.ini''
     = Return ([], Inr failArgs) \<and>
   failMerge = (fst failMerge, fst (snd failMerge), False) \<and>
   (''x'', ''a'') \<in> set (fst (snd failMerge)) \<and>
   snd (flagSet (fst failMerge) ''x'' ''a'') \<and>
   (\<exists>s1. parseConfigFlags 1 failWorld failSession = Return (s1, Inl MergeFailed) \<and>
      ''x'' \<notin> actual (flags failSession) \<and> ''x'' \<in> actual (flags s1) \<and>
      (\<forall>rs s2. reloads rs s1 = Return s2 \<longrightarrow>
         ''x'' \<notin> getMissingFlags (flags s2) \<and> Lookup (flags s2) ''x'' = Lookup (flags s1) ''x'')) \<and>
   valueAfter (parseConfigFlags 1 laterWorld
       (the (returned (updateConfig 1 failWorld failSession)))) ''x'' = ''a''"
proof -
  have h1: "configPathOf failWorld failSession = Return (Some ''/c.ini'')"
    by code_simp
  have h2: "''/c.ini'' \<noteq> []"
    by simp
  have h3: "getArgsFromConfig 1 failWorld (flags failSession) (importStack failSession) ''/c.ini''
     = Return ([], Inr failArgs)"
    by code_simp
  have "\<not> snd (snd failMerge)"
    by code_simp
  then have h4': "failMerge = (fst failMerge, fst (snd failMerge), False)"
    by (metis prod.collapse)
  then have h4: "mergeArgs (flagShorthands failSession) (getMissingFlags (flags failSession)) failArgs
       (flags failSession, [], True) = (fst failMerge, fst (snd failMerge), False)"
    by (simp add: failMerge_def)
  have h5: "(''x'', ''a'') \<in> set (fst (snd failMerge))"
    by code_simp
  have h6: "snd (flagSet (fst failMerge) ''x'' ''a'')"
    by code_simp
  have later: "valueAfter (parseConfigFlags 1 laterWorld
       (the (returned (updateConfig 1 failWorld failSession)))) ''x'' = ''a''"
    by code_simp
  from rollback_marks_flag_as_set [OF h1 h2 h3 h4 h5 h6] h1 h3 h4' h5 h6 later show ?thesis
    by blast
qed

section \<open>Multi-line values\<close>

lemma LastIndex_append:
  "LastIndex (xs @ ys) c = (if c \<in> set ys then int (length xs) + LastIndex ys c else LastIndex xs c)"
proof (induction xs)
  case Nil
  then show ?case by (simp add: LastIndex_notin)
next
  case (Cons x xs)
  then show ?case
    using LastIndex_in [of c ys] by (auto simp: Let_def LastIndex_notin)
qed

lemma LastIndex_multiline_key:
  assumes "CHR ''{'' \<notin> set delimiter"
  shows "LastIndex (base @ ''{'' @ delimiter @ ''}'') CHR ''{'' = int (length base)"
proof -
  have "LastIndex (''{'' @ delimiter @ ''}'') CHR ''{'' = 0"
    using assms by (simp add: LastIndex_append LastIndex_notin Let_def)
  then show ?thesis
    by (simp add: LastIndex_append)
qed

lemma HasSuffix_multiline_key: "HasSuffix (base @ ''{'' @ delimiter @ ''}'') ''}''"
  by (simp add: HasSuffix_def)

lemma slice_multiline_key:
  "slice (base @ ''{'' @ delimiter @ ''}'') (length base + 1) (length (base @ ''{'' @ delimiter @ ''}'') - 1)
     = Some delimiter"
  by (simp add: slice_def)

text \<open>A key/value line whose key is \<open>base{delimiter}\<close>, by the pending multi-line
  argument.\<close>

lemma keyValueLine_multiline:
  assumes "SplitN2 line CHR ''='' = [keyPart, valuePart]"
    and "TrimSpace keyPart = base @ ''{'' @ delimiter @ ''}''"
    and "CHR ''{'' \<notin> set delimiter"
    and "unquoteValue (sprintfQ w) valuePart = Return (Inr (val, cmt))"
  shows "keyValueLine w configPath lineNum line comment multilineFA args =
           (if Key multilineFA = [] then
              Return (Inr (\<lparr>Key = base, Value = val, FilePath = configPath, LineNum = lineNum,
                             Comment = (if comment = [] then cmt else comment)\<rparr>, args))
            else if Key multilineFA = base then
              Return (Inr (multilineFA\<lparr>Value := Value multilineFA @ delimiter @ val\<rparr>, args))
            else
              Return (Inr (\<lparr>Key = base, Value = val, FilePath = configPath, LineNum = lineNum,
                             Comment = (if comment = [] then cmt else comment)\<rparr>,
                           args @ [multilineFA])))"
  using assms(1,2,4) LastIndex_multiline_key [OF assms(3), of base]
    HasSuffix_multiline_key [of base delimiter] slice_multiline_key [of base delimiter]
  by (simp add: keyValueLine_def Let_def)

text \<open>A key/value line with a bare key.\<close>

lemma keyValueLine_bare:
  assumes "SplitN2 line CHR ''='' = [keyPart, valuePart]"
    and "\<not> HasSuffix (TrimSpace keyPart) ''}''"
    and "unquoteValue (sprintfQ w) valuePart = Return (Inr (val, cmt))"
  shows "keyValueLine w configPath lineNum line comment multilineFA args =
           (let fa = \<lparr>Key = TrimSpace keyPart, Value = val, FilePath = configPath, LineNum = lineNum,
                       Comment = (if comment = [] then cmt else comment)\<rparr>
            in if Key multilineFA \<noteq> [] then Return (Inr (noFlagArg, args @ [multilineFA, fa]))
               else Return (Inr (multilineFA, args @ [fa])))"
  using assms by (simp add: keyValueLine_def Let_def)

lemma multiline_example_loop:
  "loopLines imp w configPath
     (readLines (lines [''m{,}=line1'', ''m{,}=line2'', ''m{|}=line3'', ''m{}=line4'']))
     stack (0, [], noFlagArg, [])
   = Return (stack, Inr (4, [], \<lparr>Key = ''m'', Value = ''line1,line2|line3line4'',
        FilePath = configPath, LineNum = 1, Comment = []\<rparr>, []))"
  by code_simp

text \<open>
  C4. A source that holds the lines \<open>m{,}=line1\<close>, \<open>m{,}=line2\<close>, \<open>m{|}=line3\<close>, \<open>m{}=line4\<close>
  parses to the single directive with key \<open>m\<close> and value \<open>line1,line2|line3line4\<close>. In
  general, for a key \<open>base{delimiter}\<close>: with nothing pending the line starts a pending
  directive keyed \<open>base\<close>; with \<open>base\<close> pending its delimiter and value are appended to the
  pending value; with another key pending that directive is emitted first. A bare key emits
  a pending directive before its own, and the end of the source emits what is pending.
\<close>

theorem multiline_join:
  "(configPath \<notin> set stack \<and>
    openConfigFile w fs configPath =
      (Some (lines [''m{,}=line1'', ''m{,}=line2'', ''m{|}=line3'', ''m{}=line4''], EOF), None) \<longrightarrow>
    getArgsFromConfig (Suc fuel) w fs stack configPath =
      Return (stack, Inr [\<lparr>Key = ''m'', Value = ''line1,line2|line3line4'', FilePath = configPath,
                             LineNum = 1, Comment = []\<rparr>])) \<and>
   (SplitN2 line CHR ''='' = [keyPart, valuePart] \<and> TrimSpace keyPart = base @ ''{'' @ delimiter @ ''}'' \<and>
    CHR ''{'' \<notin> set delimiter \<and> unquoteValue (sprintfQ w) valuePart = Return (Inr (val, cmt)) \<longrightarrow>
    keyValueLine w configPath lineNum line comment multilineFA args =
      (if Key multilineFA = [] then
         Return (Inr (\<lparr>Key = base, Value = val, FilePath = configPath, LineNum = lineNum,
                        Comment = (if comment = [] then cmt else comment)\<rparr>, args))
       else if Key multilineFA = base then
         Return (Inr (multilineFA\<lparr>Value := Value multilineFA @ delimiter @ val\<rparr>, args))
       else
         Return (Inr (\<lparr>Key = base, Value = val, FilePath = configPath, LineNum = lineNum,
                        Comment = (if comment = [] then cmt else comment)\<rparr>,
                      args @ [multilineFA])))) \<and>
   (SplitN2 line CHR ''='' = [keyPart, valuePart] \<and> \<not> HasSuffix (TrimSpace keyPart) ''}'' \<and>
    unquoteValue (sprintfQ w) valuePart = Return (Inr (val, cmt)) \<and> Key multilineFA \<noteq> [] \<longrightarrow>
    keyValueLine w configPath lineNum line comment multilineFA args =
      Return (Inr (noFlagArg,
        args @ [multilineFA,
                \<lparr>Key = TrimSpace keyPart, Value = val, FilePath = configPath, LineNum = lineNum,
                  Comment = (if comment = [] then cmt else comment)\<rparr>]))) \<and>
   (Key multilineFA \<noteq> [] \<longrightarrow>
    endOfSource EOF (lineNum, comment, multilineFA, args) = Inr (args @ [multilineFA]))"
proof (intro conjI impI)
  assume a: "configPath \<notin> set stack \<and>
    openConfigFile w fs configPath =
      (Some (lines [''m{,}=line1'', ''m{,}=line2'', ''m{|}=line3'', ''m{}=line4''], EOF), None)"
  then show "getArgsFromConfig (Suc fuel) w fs stack configPath =
      Return (stack, Inr [\<lparr>Key = ''m'', Value = ''line1,line2|line3line4'', FilePath = configPath,
                             LineNum = 1, Comment = []\<rparr>])"
    by (simp add: checkImportRecursion_def multiline_example_loop endOfSource_def)
next
  assume "SplitN2 line CHR ''='' = [keyPart, valuePart] \<and> TrimSpace keyPart = base @ ''{'' @ delimiter @ ''}'' \<and>
    CHR ''{'' \<notin> set delimiter \<and> unquoteValue (sprintfQ w) valuePart = Return (Inr (val, cmt))"
  then show "keyValueLine w configPath lineNum line comment multilineFA args =
      (if Key multilineFA = [] then
         Return (Inr (\<lparr>Key = base, Value = val, FilePath = configPath, LineNum = lineNum,
                        Comment = (if comment = [] then cmt else comment)\<rparr>, args))
       else if Key multilineFA = base then
         Return (Inr (multilineFA\<lparr>Value := Value multilineFA @ delimiter @ val\<rparr>, args))
       else
         Return (Inr (\<lparr>Key = base, Value = val, FilePath = configPath, LineNum = lineNum,
                        Comment = (if comment = [] then cmt else comment)\<rparr>,
                      args @ [multilineFA])))"
    using keyValueLine_multiline [of line keyPart valuePart base delimiter w val cmt] by blast
next
  assume "SplitN2 line CHR ''='' = [keyPart, valuePart] \<and> \<not> HasSuffix (TrimSpace keyPart) ''}'' \<and>
    unquoteValue (sprintfQ w) valuePart = Return (Inr (val, cmt)) \<and> Key multilineFA \<noteq> []"
  then show "keyValueLine w configPath lineNum line comment multilineFA args =
      Return (Inr (noFlagArg,
        args @ [multilineFA,
                \<lparr>Key = TrimSpace keyPart, Value = val, FilePath = configPath, LineNum = lineNum,
                  Comment = (if comment = [] then cmt else comment)\<rparr>]))"
    using keyValueLine_bare [of line keyPart valuePart w val cmt configPath lineNum comment multilineFA args]
    by (simp add: Let_def)
next
  assume "Key multilineFA \<noteq> []"
  then show "endOfSource EOF (lineNum, comment, multilineFA, args) = Inr (args @ [multilineFA])"
    by (simp add: endOfSource_def)
qed

theorem multiline_join_witness:
  "''/m.ini'' \<notin> set [] \<and>
   openConfigFile
     (localFiles [(''/m.ini'', lines [''m{,}=line1'', ''m{,}=line2'', ''m{|}=line3'', ''m{}=line4''])])
     \<lparr>formal = packageFlags ''/m.ini'', actual = {''config''}\<rparr> ''/m.ini''
     = (Some (lines [''m{,}=line1'', ''m{,}=line2'', ''m{|}=line3'', ''m{}=line4''], EOF), None) \<and>
   getArgsFromConfig 1
     (localFiles [(''/m.ini'', lines [''m{,}=line1'', ''m{,}=line2'', ''m{|}=line3'', ''m{}=line4''])])
     \<lparr>formal = packageFlags ''/m.ini'', actual = {''config''}\<rparr> [] ''/m.ini''
     = Return ([], Inr [\<lparr>Key = ''m'', Value = ''line1,line2|line3line4'', FilePath = ''/m.ini'',
                          LineNum = 1, Comment = []\<rparr>]) \<and>
   SplitN2 ''m{|}=line3'' CHR ''='' = [''m{|}'', ''line3''] \<and>
   TrimSpace ''m{|}'' = ''m'' @ ''{'' @ ''|'' @ ''}'' \<and>
   CHR ''{'' \<notin> set ''|'' \<and>
   unquoteValue (sprintfQ (localFiles [])) ''line3'' = Return (Inr (''line3'', [])) \<and>
   keyValueLine (localFiles []) ''/m.ini'' 3 ''m{|}=line3'' [] pendingM []
     = Return (Inr (pendingM\<lparr>Value := ''line1,line2|line3''\<rparr>, [])) \<and>
   SplitN2 ''k = v'' CHR ''='' = [''k '', '' v''] \<and>
   \<not> HasSuffix (TrimSpace ''k '') ''}'' \<and>
   unquoteValue (sprintfQ (localFiles [])) '' v'' = Return (Inr (''v'', [])) \<and>
   Key pendingM \<noteq> [] \<and>
   keyValueLine (localFiles []) ''/m.ini'' 3 ''k = v'' [] pendingM []
     = Return (Inr (noFlagArg,
         [pendingM, \<lparr>Key = ''k'', Value = ''v'', FilePath = ''/m.ini'', LineNum = 3, Comment = []\<rparr>])) \<and>
   endOfSource EOF (3, [], pendingM, []) = Inr [pendingM]"
proof -
  let ?w = "localFiles [(''/m.ini'', lines [''m{,}=line1'', ''m{,}=line2'', ''m{|}=line3'', ''m{}=line4''])]"
  let ?fs = "\<lparr>formal = packageFlags ''/m.ini'', actual = {''config''}\<rparr>"
  have h1: "''/m.ini'' \<notin> set [] \<and> openConfigFile ?w ?fs ''/m.ini''
     = (Some (lines [''m{,}=line1'', ''m{,}=line2'', ''m{|}=line3'', ''m{}=line4''], EOF), None)"
    by code_simp
  have h2: "SplitN2 ''m{|}=line3'' CHR ''='' = [''m{|}'', ''line3''] \<and>
     TrimSpace ''m{|}'' = ''m'' @ ''{'' @ ''|'' @ ''}'' \<and> CHR ''{'' \<notin> set ''|'' \<and>
     unquoteValue (sprintfQ (localFiles [])) ''line3'' = Return (Inr (''line3'', []))"
    by code_simp
  have h3: "SplitN2 ''k = v'' CHR ''='' = [''k '', '' v''] \<and> \<not> HasSuffix (TrimSpace ''k '') ''}'' \<and>
     unquoteValue (sprintfQ (localFiles [])) '' v'' = Return (Inr (''v'', [])) \<and> Key pendingM \<noteq> []"
    by code_simp
  have k: "Key pendingM = ''m''" "Value pendingM = ''line1,line2''" "TrimSpace ''k '' = ''k''"
    by code_simp+
  note c1 = multiline_join [where configPath = "''/m.ini''" and stack = "[]" and fs = "?fs"
      and fuel = 0 and w = "?w", THEN conjunct1, THEN mp, OF h1]
  note c2 = multiline_join [where w = "localFiles []" and line = "''m{|}=line3''"
      and keyPart = "''m{|}''" and valuePart = "''line3''" and base = "''m''" and delimiter = "''|''"
      and val = "''line3''" and cmt = "[]" and configPath = "''/m.ini''" and lineNum = 3
      and comment = "[]" and multilineFA = pendingM and args = "[]",
      THEN conjunct2, THEN conjunct1, THEN mp, OF h2]
  note c3 = multiline_join [where w = "localFiles []" and line = "''k = v''"
      and keyPart = "''k ''" and valuePart = "'' v''" and val = "''v''" and cmt = "[]"
      and configPath = "''/m.ini''" and lineNum = 3 and comment = "[]"
      and multilineFA = pendingM and args = "[]",
      THEN conjunct2, THEN conjunct2, THEN conjunct1, THEN mp, OF h3]
  from h3 have h4: "Key pendingM \<noteq> []"
    by simp
  note c4 = multiline_join [where multilineFA = pendingM and lineNum = 3 and comment = "[]"
      and args = "[]", THEN conjunct2, THEN conjunct2, THEN conjunct2, THEN mp, OF h4]
  from c2 have c2': "keyValueLine (localFiles []) ''/m.ini'' 3 ''m{|}=line3'' [] pendingM []
     = Return (Inr (pendingM\<lparr>Value := ''line1,line2|line3''\<rparr>, []))"
    by (simp add: k)
  from c3 have c3': "keyValueLine (localFiles []) ''/m.ini'' 3 ''k = v'' [] pendingM []
     = Return (Inr (noFlagArg,
         [pendingM, \<lparr>Key = ''k'', Value = ''v'', FilePath = ''/m.ini'', LineNum = 3, Comment = []\<rparr>]))"
    by (simp add: k)
  from c4 have c4': "endOfSource EOF (3, [], pendingM, []) = Inr [pendingM]"
    by simp
  from c1 have c1': "getArgsFromConfig 1 ?w ?fs [] ''/m.ini''
     = Return ([], Inr [\<lparr>Key = ''m'', Value = ''line1,line2|line3line4'', FilePath = ''/m.ini'',
                          LineNum = 1, Comment = []\<rparr>])"
    by simp
  from h1 c1' h2 c2' h3 c3' c4' show ?thesis
    by blast
qed

section \<open>Imports\<close>

lemma loopLines_append:
  "loopLines imp w configPath (pre @ post) stack st =
     (case loopLines imp w configPath pre stack st of
        Return (stack1, Inr st1) \<Rightarrow> loopLines imp w configPath post stack1 st1
      | r \<Rightarrow> r)"
proof (induction pre arbitrary: stack st)
  case Nil
  show ?case by simp
next
  case (Cons l pre)
  show ?case
    by (simp add: Cons.IH split: outcome.splits prod.splits sum.splits)
qed

text \<open>The loop body on a line that is an import.\<close>

lemma lineStep_import:
  assumes "ValidString l"
    and "TrimSpace (if n + 1 = 1 then stripBOM l else l) = line"
    and "HasPrefix line ''#import ''"
    and "unquoteValue (sprintfQ w) (drop 7 line) = Return (Inr (importPath, cmt))"
    and "combinePath w configPath importPath = Some q"
  shows "lineStep imp w configPath l stack (n, c, mfa, args) =
           (case imp stack q of
              Return (stack', Inr importArgs) \<Rightarrow> Return (stack', Inr (n + 1, c, mfa, args @ importArgs))
            | Return (stack', Inl e) \<Rightarrow> Return (stack', Inl e)
            | Panic \<Rightarrow> Panic
            | Exit x \<Rightarrow> Exit x
            | NoFuel \<Rightarrow> NoFuel)"
  using assms
  by (simp add: lineStep_def Let_def split: outcome.splits prod.splits sum.splits)

text \<open>The loop body on a line that starts with a semicolon: a comment.\<close>

lemma lineStep_semicolon:
  assumes "ValidString l"
    and "TrimSpace (if n + 1 = 1 then stripBOM l else l) = line"
    and "line \<noteq> []" and "hd line = CHR '';''"
  shows "lineStep imp w configPath l stack (n, c, mfa, args) = Return (stack, Inr (n + 1, tl line, mfa, args))"
proof -
  from assms(3,4) have "\<not> HasPrefix line ''#import ''"
    by (cases line) (auto simp: HasPrefix_def)
  with assms show ?thesis
    by (simp add: lineStep_def Let_def)
qed

text \<open>The arguments emitted so far stay in front of what the loop emits later.\<close>

lemma keyValueLine_extends:
  assumes "keyValueLine w configPath lineNum line comment mfa args = Return (Inr (mfa', args'))"
  shows "\<exists>rest. args' = args @ rest"
  using assms
  by (auto simp: keyValueLine_def Let_def
      split: list.splits outcome.splits sum.splits prod.splits if_splits option.splits)

lemma lineStep_extends:
  assumes "lineStep imp w configPath l stack (n, c, mfa, args) = Return (stack', Inr (n', c', mfa', args'))"
  shows "\<exists>rest. args' = args @ rest"
  using assms
  by (auto simp: lineStep_def Let_def dest: keyValueLine_extends
      split: outcome.splits sum.splits prod.splits if_splits option.splits)

lemma loopLines_extends:
  "loopLines imp w configPath ls stack (n, c, mfa, args) = Return (stack', Inr (n', c', mfa', args')) \<Longrightarrow>
   \<exists>rest. args' = args @ rest"
proof (induction ls arbitrary: stack n c mfa args)
  case Nil
  then show ?case by simp
next
  case (Cons l ls)
  from Cons.prems obtain stack1 n1 c1 mfa1 args1
    where step: "lineStep imp w configPath l stack (n, c, mfa, args) = Return (stack1, Inr (n1, c1, mfa1, args1))"
      and rest: "loopLines imp w configPath ls stack1 (n1, c1, mfa1, args1) = Return (stack', Inr (n', c', mfa', args'))"
    by (auto split: outcome.splits sum.splits prod.splits)
  from lineStep_extends [OF step] Cons.IH [OF rest] show ?case
    by auto
qed


text \<open>What the loop emits does not depend on the arguments emitted before: they stay in
  front of it.\<close>

lemma keyValueLine_acc:
  "keyValueLine w configPath lineNum line comment mfa args =
     (case keyValueLine w configPath lineNum line comment mfa [] of
        Return (Inr (mfa', rest)) \<Rightarrow> Return (Inr (mfa', args @ rest))
      | r \<Rightarrow> r)"
proof -
  define h :: "(error + flagArg \<times> flagArg list) outcome \<Rightarrow> (error + flagArg \<times> flagArg list) outcome"
    where "h = (\<lambda>r. case r of Return (Inr (mfa', rest)) \<Rightarrow> Return (Inr (mfa', args @ rest)) | r \<Rightarrow> r)"
  have h: "h Panic = Panic" "h NoFuel = NoFuel" "\<And>x. h (Exit x) = Exit x"
    "\<And>e. h (Return (Inl e)) = Return (Inl e)"
    "\<And>m rest. h (Return (Inr (m, rest))) = Return (Inr (m, args @ rest))"
    by (simp_all add: h_def)
  have "keyValueLine w configPath lineNum line comment mfa args =
      h (keyValueLine w configPath lineNum line comment mfa [])"
    unfolding keyValueLine_def Let_def
    by (simp add: list.case_distrib [of h] outcome.case_distrib [of h] sum.case_distrib [of h]
          prod.case_distrib [of h] option.case_distrib [of h] if_distrib [of h] h
        cong: list.case_cong outcome.case_cong sum.case_cong prod.case_cong option.case_cong if_cong)
  then show ?thesis
    by (simp add: h_def)
qed

lemma lineStep_acc:
  "lineStep imp w configPath l stack (n, c, mfa, args) =
     (case lineStep imp w configPath l stack (n, c, mfa, []) of
        Return (stack', Inr (n', c', mfa', rest)) \<Rightarrow> Return (stack', Inr (n', c', mfa', args @ rest))
      | r \<Rightarrow> r)"
proof -
  define h :: "(string list \<times> (error + loopState)) outcome \<Rightarrow> (string list \<times> (error + loopState)) outcome"
    where "h = (\<lambda>r. case r of
        Return (stack', Inr (n', c', mfa', rest)) \<Rightarrow> Return (stack', Inr (n', c', mfa', args @ rest))
      | r \<Rightarrow> r)"
  have h: "h Panic = Panic" "h NoFuel = NoFuel" "\<And>x. h (Exit x) = Exit x"
    "\<And>stack' e. h (Return (stack', Inl e)) = Return (stack', Inl e)"
    "\<And>stack' n' c' m rest. h (Return (stack', Inr (n', c', m, rest))) = Return (stack', Inr (n', c', m, args @ rest))"
    by (simp_all add: h_def)
  note kv = keyValueLine_acc [of w configPath "Suc 0" _ c mfa args]
    keyValueLine_acc [of w configPath "Suc n" _ c mfa args]
  have "lineStep imp w configPath l stack (n, c, mfa, args) =
      h (lineStep imp w configPath l stack (n, c, mfa, []))"
    unfolding lineStep_def Let_def
    by (simp add: kv list.case_distrib [of h] outcome.case_distrib [of h] sum.case_distrib [of h]
          prod.case_distrib [of h] option.case_distrib [of h] if_distrib [of h] h
          outcome.case_distrib [of "case_outcome _ _ _ _"]
          sum.case_distrib [of "case_outcome _ _ _ _"] prod.case_distrib [of "case_outcome _ _ _ _"]
        split: outcome.split sum.split prod.split
        cong: list.case_cong outcome.case_cong sum.case_cong prod.case_cong option.case_cong if_cong)
  then show ?thesis
    by (simp add: h_def)
qed

lemma loopLines_acc:
  "loopLines imp w configPath ls stack (n, c, mfa, args) =
     (case loopLines imp w configPath ls stack (n, c, mfa, []) of
        Return (stack', Inr (n', c', mfa', rest)) \<Rightarrow> Return (stack', Inr (n', c', mfa', args @ rest))
      | r \<Rightarrow> r)"
proof (induction ls arbitrary: stack n c mfa args)
  case Nil
  show ?case by simp
next
  case (Cons l ls)
  show ?case
  proof (cases "lineStep imp w configPath l stack (n, c, mfa, [])")
    case (Return r)
    obtain stack1 x where r: "r = (stack1, x)" by (cases r)
    show ?thesis
    proof (cases x)
      case (Inl e)
      with Return r lineStep_acc [of imp w configPath l stack n c mfa args] show ?thesis
        by simp
    next
      case (Inr st)
      obtain n1 c1 mfa1 rest1 where st: "st = (n1, c1, mfa1, rest1)"
        by (cases st)
      from Return r Inr st lineStep_acc [of imp w configPath l stack n c mfa args]
      have step: "lineStep imp w configPath l stack (n, c, mfa, args) =
          Return (stack1, Inr (n1, c1, mfa1, args @ rest1))"
        by simp
      have a: "loopLines imp w configPath (l # ls) stack (n, c, mfa, args) =
          loopLines imp w configPath ls stack1 (n1, c1, mfa1, args @ rest1)"
        by (simp add: step)
      have b: "loopLines imp w configPath (l # ls) stack (n, c, mfa, []) =
          loopLines imp w configPath ls stack1 (n1, c1, mfa1, rest1)"
        using Return r Inr st by simp
      show ?thesis
        unfolding a b
        by (subst Cons.IH [of stack1 n1 c1 mfa1 "args @ rest1"],
            subst Cons.IH [of stack1 n1 c1 mfa1 rest1])
           (simp split: outcome.split sum.split prod.split)
    qed
  next
    case Panic
    with lineStep_acc [of imp w configPath l stack n c mfa args] show ?thesis by simp
  next
    case (Exit x)
    with lineStep_acc [of imp w configPath l stack n c mfa args] show ?thesis by simp
  next
    case NoFuel
    with lineStep_acc [of imp w configPath l stack n c mfa args] show ?thesis by simp
  qed
qed

section \<open>The last directive for a flag\<close>

lemma mergeArgs_append:
  "mergeArgs sh missing (xs @ ys) st = mergeArgs sh missing ys (mergeArgs sh missing xs st)"
  by (induction xs arbitrary: st) simp_all

lemma valueSet_setter:
  assumes "valueSet fs key f v = (fs', accepted)" and "Lookup fs key = Some f"
  shows "map_option ValueSet (Lookup fs' name) = map_option ValueSet (Lookup fs name)"
  using assms
  by (auto simp: valueSet_def Lookup_def update_conv' split: prod.splits)

lemma mergeArg_setter:
  "map_option ValueSet (Lookup (fst (mergeArg sh missing arg (fs, old, ok))) name) =
   map_option ValueSet (Lookup fs name)"
proof -
  obtain fs' old' ok' where step: "mergeArg sh missing arg (fs, old, ok) = (fs', old', ok')"
    by (cases "mergeArg sh missing arg (fs, old, ok)") auto
  from mergeArg_cases [OF step] consider
    (unchanged) "fs' = fs"
  | (changed) key f accepted where "Lookup fs key = Some f"
      "valueSet fs key f (Value arg) = (fs', accepted)"
    by blast
  then show ?thesis
  proof cases
    case unchanged
    with step show ?thesis by simp
  next
    case changed
    from valueSet_setter [OF changed(2) changed(1), of name] step show ?thesis
      by simp
  qed
qed

lemma mergeArgs_setter:
  "map_option ValueSet (Lookup (fst (mergeArgs sh missing parsedArgs (fs, old, ok))) name) =
   map_option ValueSet (Lookup fs name)"
proof (induction parsedArgs arbitrary: fs old ok)
  case Nil
  show ?case by simp
next
  case (Cons arg parsedArgs)
  obtain fs1 old1 ok1 where step: "mergeArg sh missing arg (fs, old, ok) = (fs1, old1, ok1)"
    by (cases "mergeArg sh missing arg (fs, old, ok)") auto
  from Cons.IH [of fs1 old1 ok1] mergeArg_setter [of sh missing arg fs old ok name] step
  show ?case by simp
qed

lemma mergeArg_sets:
  assumes look: "Lookup fs (Key d) = Some f" and miss: "Key d \<in> missing"
    and setter: "ValueSet f (ValueString f) (Value d) = (Value d, True)"
  shows "stringVar (fst (mergeArg sh missing d (fs, old, ok))) (Key d) = Value d"
proof (cases "ValueString f = Value d")
  case True
  with look miss show ?thesis
    by (simp add: mergeArg_def stringVar_def)
next
  case False
  have vs: "valueSet fs (Key d) f (Value d) =
      (fs\<lparr>formal := AList.update (Key d) (f\<lparr>ValueString := Value d\<rparr>) (formal fs)\<rparr>, True)"
    by (simp add: valueSet_def setter)
  have v: "stringVar (fs\<lparr>formal := AList.update (Key d) (f\<lparr>ValueString := Value d\<rparr>) (formal fs)\<rparr>) (Key d)
      = Value d"
    by (simp add: stringVar_def Lookup_def update_conv')
  from look miss False vs v show ?thesis
    by (simp add: mergeArg_def)
qed

lemma mergeArg_other_key:
  assumes key: "Key a \<noteq> k" and short: "sh (Key a) \<noteq> Some k"
  shows "Lookup (fst (mergeArg sh missing a (fs, old, ok))) k = Lookup fs k"
proof -
  define found where "found =
    (case Lookup fs (Key a) of
       Some f \<Rightarrow> (Some f, Key a)
     | None \<Rightarrow>
         (case sh (Key a) of
            Some fullName \<Rightarrow> (Lookup fs fullName, fullName)
          | None \<Rightarrow> (None, Key a)))"
  obtain fo name where found: "found = (fo, name)"
    by (cases found)
  from found key short have name: "fo \<noteq> None \<Longrightarrow> name \<noteq> k"
    by (auto simp: found_def split: option.splits)
  show ?thesis
  proof (cases fo)
    case None
    with found show ?thesis
      by (simp add: mergeArg_def found_def [symmetric])
  next
    case (Some f)
    obtain fs1 accepted where vs: "valueSet fs name f (Value a) = (fs1, accepted)"
      by (cases "valueSet fs name f (Value a)")
    from name Some have "k \<noteq> name"
      by auto
    with valueSet_frame [OF vs, of k] have "Lookup fs1 k = Lookup fs k"
      by simp
    with found Some vs show ?thesis
      by (simp add: mergeArg_def found_def [symmetric] Let_def)
  qed
qed

lemma mergeArgs_other_keys:
  "list_all (\<lambda>a. Key a \<noteq> k \<and> sh (Key a) \<noteq> Some k) later \<Longrightarrow>
   Lookup (fst (mergeArgs sh missing later (fs, old, ok))) k = Lookup fs k"
proof (induction later arbitrary: fs old ok)
  case Nil
  show ?case by simp
next
  case (Cons a later)
  obtain fs1 old1 ok1 where step: "mergeArg sh missing a (fs, old, ok) = (fs1, old1, ok1)"
    by (cases "mergeArg sh missing a (fs, old, ok)") auto
  from Cons.prems have a: "Key a \<noteq> k" "sh (Key a) \<noteq> Some k"
    and rest: "list_all (\<lambda>a. Key a \<noteq> k \<and> sh (Key a) \<noteq> Some k) later"
    by simp_all
  from Cons.IH [OF rest, of fs1 old1 ok1] mergeArg_other_key [of a k sh missing fs old ok] a step
  show ?case by simp
qed

lemma mergeArgs_last_wins:
  assumes look: "Lookup fs (Key d) = Some f" and miss: "Key d \<in> missing"
    and setter: "\<forall>cur. ValueSet f cur (Value d) = (Value d, True)"
    and later: "list_all (\<lambda>a. Key a \<noteq> Key d \<and> sh (Key a) \<noteq> Some (Key d)) later"
  shows "stringVar (fst (mergeArgs sh missing (earlier @ d # later) (fs, old, ok))) (Key d) = Value d"
proof -
  obtain fs1 old1 ok1 where e: "mergeArgs sh missing earlier (fs, old, ok) = (fs1, old1, ok1)"
    by (cases "mergeArgs sh missing earlier (fs, old, ok)") auto
  from mergeArgs_setter [of sh missing earlier fs old ok "Key d"] e look
  obtain f1 where f1: "Lookup fs1 (Key d) = Some f1" and vs: "ValueSet f1 = ValueSet f"
    by auto
  from setter vs have "ValueSet f1 (ValueString f1) (Value d) = (Value d, True)"
    by simp
  from mergeArg_sets [OF f1 miss this, of sh old1 ok1]
  have d: "stringVar (fst (mergeArg sh missing d (fs1, old1, ok1))) (Key d) = Value d" .
  obtain fs2 old2 ok2 where s: "mergeArg sh missing d (fs1, old1, ok1) = (fs2, old2, ok2)"
    by (cases "mergeArg sh missing d (fs1, old1, ok1)") auto
  from mergeArgs_other_keys [OF later, of missing fs2 old2 ok2] d s
  have "stringVar (fst (mergeArgs sh missing later (fs2, old2, ok2))) (Key d) = Value d"
    by (simp add: stringVar_def)
  with e s show ?thesis
    by (simp add: mergeArgs_append)
qed

lemma pass_last_wins:
  assumes path: "configPathOf w s = Return (Some configPath)" and ne: "configPath \<noteq> []"
    and args: "getArgsFromConfig fuel w (flags s) (importStack s) configPath
                 = Return (stack, Inr (earlier @ d # later))"
    and ok: "resultOf (parseConfigFlags fuel w s) = Some (Inr old)"
    and look: "Lookup (flags s) (Key d) = Some f" and cmd: "Key d \<notin> actual (flags s)"
    and setter: "\<forall>cur. ValueSet f cur (Value d) = (Value d, True)"
    and later: "list_all (\<lambda>a. Key a \<noteq> Key d \<and> flagShorthands s (Key a) \<noteq> Some (Key d)) later"
  shows "valueAfter (parseConfigFlags fuel w s) (Key d) = Value d"
proof -
  from look have "(Key d, f) \<in> set (formal (flags s))"
    by (simp add: Lookup_def map_of_SomeD)
  then have "Key d \<in> set (map fst (formal (flags s)))"
    by force
  with cmd have miss: "Key d \<in> getMissingFlags (flags s)"
    by (simp add: getMissingFlags_def)
  obtain fs1 old1 ok1 where m: "mergeArgs (flagShorthands s) (getMissingFlags (flags s))
      (earlier @ d # later) (flags s, [], True) = (fs1, old1, ok1)"
    by (cases "mergeArgs (flagShorthands s) (getMissingFlags (flags s))
      (earlier @ d # later) (flags s, [], True)") auto
  from mergeArgs_last_wins [OF look miss setter later, of earlier "[]" True] m
  have v: "stringVar fs1 (Key d) = Value d"
    by simp
  from ok path ne args m have "ok1"
    by (auto simp: parseConfigFlags_def resultOf_def split: if_splits)
  with path ne args m v show ?thesis
    by (simp add: parseConfigFlags_def valueAfter_def)
qed
section \<open>An import and the lines around it\<close>

text \<open>
  C5, as amended. A line that, trimmed, starts with \<open>#import\<close> and a space, and whose rest
  unquotes to a path that resolves to \<open>q\<close>, is an import. When no multi-line directive is
  pending at that line and the parse of \<open>q\<close> succeeds, the directives of \<open>q\<close> are spliced
  in place: the loop goes on after the line with them appended to the directives of the
  earlier lines, and what the later lines emit comes after them. In a pass that succeeds,
  the last directive for a flag that was not set on the command line, and whose value
  accepts what the directive gives, decides the value of the flag: so a directive after
  the import line overrides the imported directives for the same key. A line that starts
  with a semicolon is a comment, whatever follows the semicolon.
\<close>

theorem import_spliced_in_place:
  "(loopLines imp w configPath pre stack start = Return (stackBefore, Inr (n, c, mfa, args)) \<and>
    Key mfa = [] \<and>
    ValidString l \<and> TrimSpace (if n + 1 = 1 then stripBOM l else l) = line \<and>
    HasPrefix line ''#import '' \<and>
    unquoteValue (sprintfQ w) (drop 7 line) = Return (Inr (importPath, cmt)) \<and>
    combinePath w configPath importPath = Some q \<and>
    imp stackBefore q = Return (stackAfter, Inr importArgs) \<longrightarrow>
    loopLines imp w configPath (pre @ l # post) stack start =
      loopLines imp w configPath post stackAfter (n + 1, c, mfa, args @ importArgs) \<and>
    (\<forall>stackEnd m c' mfa' rest.
       loopLines imp w configPath post stackAfter (n + 1, c, mfa, []) =
         Return (stackEnd, Inr (m, c', mfa', rest)) \<longrightarrow>
       loopLines imp w configPath (pre @ l # post) stack start =
         Return (stackEnd, Inr (m, c', mfa', args @ importArgs @ rest)))) \<and>
   (configPathOf w s = Return (Some root) \<and> root \<noteq> [] \<and>
    getArgsFromConfig fuel w (flags s) (importStack s) root =
      Return (stackRoot, Inr (earlier @ d # later)) \<and>
    resultOf (parseConfigFlags fuel w s) = Some (Inr old) \<and>
    Lookup (flags s) (Key d) = Some f \<and> Key d \<notin> actual (flags s) \<and>
    (\<forall>cur. ValueSet f cur (Value d) = (Value d, True)) \<and>
    list_all (\<lambda>a. Key a \<noteq> Key d \<and> flagShorthands s (Key a) \<noteq> Some (Key d)) later \<longrightarrow>
    valueAfter (parseConfigFlags fuel w s) (Key d) = Value d) \<and>
   (ValidString l \<and> TrimSpace (if n + 1 = 1 then stripBOM l else l) = line \<and> line \<noteq> [] \<and>
    hd line = CHR '';'' \<longrightarrow>
    lineStep imp w configPath l stack (n, c, mfa, args) = Return (stack, Inr (n + 1, tl line, mfa, args)))"
proof (intro conjI impI allI)
  assume a: "loopLines imp w configPath pre stack start = Return (stackBefore, Inr (n, c, mfa, args)) \<and>
    Key mfa = [] \<and>
    ValidString l \<and> TrimSpace (if n + 1 = 1 then stripBOM l else l) = line \<and>
    HasPrefix line ''#import '' \<and>
    unquoteValue (sprintfQ w) (drop 7 line) = Return (Inr (importPath, cmt)) \<and>
    combinePath w configPath importPath = Some q \<and>
    imp stackBefore q = Return (stackAfter, Inr importArgs)"
  then have step: "lineStep imp w configPath l stackBefore (n, c, mfa, args) =
      Return (stackAfter, Inr (n + 1, c, mfa, args @ importArgs))"
    using lineStep_import [of l n line w importPath cmt configPath q imp stackBefore c mfa args]
    by simp
  with a show eq: "loopLines imp w configPath (pre @ l # post) stack start =
      loopLines imp w configPath post stackAfter (n + 1, c, mfa, args @ importArgs)"
    by (simp add: loopLines_append)
  fix stackEnd m c' mfa' rest
  assume "loopLines imp w configPath post stackAfter (n + 1, c, mfa, []) =
      Return (stackEnd, Inr (m, c', mfa', rest))"
  with loopLines_acc [of imp w configPath post stackAfter "n + 1" c mfa "args @ importArgs"]
  have "loopLines imp w configPath post stackAfter (n + 1, c, mfa, args @ importArgs) =
      Return (stackEnd, Inr (m, c', mfa', args @ importArgs @ rest))"
    by simp
  with eq show "loopLines imp w configPath (pre @ l # post) stack start =
      Return (stackEnd, Inr (m, c', mfa', args @ importArgs @ rest))"
    by simp
next
  assume b: "configPathOf w s = Return (Some root) \<and> root \<noteq> [] \<and>
    getArgsFromConfig fuel w (flags s) (importStack s) root =
      Return (stackRoot, Inr (earlier @ d # later)) \<and>
    resultOf (parseConfigFlags fuel w s) = Some (Inr old) \<and>
    Lookup (flags s) (Key d) = Some f \<and> Key d \<notin> actual (flags s) \<and>
    (\<forall>cur. ValueSet f cur (Value d) = (Value d, True)) \<and>
    list_all (\<lambda>a. Key a \<noteq> Key d \<and> flagShorthands s (Key a) \<noteq> Some (Key d)) later"
  then show "valueAfter (parseConfigFlags fuel w s) (Key d) = Value d"
    using pass_last_wins [of w s root fuel stackRoot earlier d later old f] by blast
next
  assume "ValidString l \<and> TrimSpace (if n + 1 = 1 then stripBOM l else l) = line \<and> line \<noteq> [] \<and>
    hd line = CHR '';''"
  then show "lineStep imp w configPath l stack (n, c, mfa, args) = Return (stack, Inr (n + 1, tl line, mfa, args))"
    using lineStep_semicolon [of l n line imp w configPath stack c mfa args] by simp
qed

text \<open>
  C5, as stated, fails for the semicolon: the only line of \<open>/a.ini\<close> is
  \<open>;import "/b.ini"\<close>, and \<open>/b.ini\<close> holds a directive, yet \<open>/a.ini\<close> parses to no directive.
  It also fails for an import line that comes while a multi-line directive is pending: the
  first line of \<open>/a.ini\<close> opens a multi-line directive for \<open>x\<close> with the value 1 and the
  second imports \<open>/b.ini\<close>, which sets \<open>x\<close> to 2; the directive of the first line comes
  after the imported one, not before it.
\<close>

theorem semicolon_import_not_spliced:
  "getArgsFromConfig 2 semicolonWorld (flags importSession) [] ''/a.ini'' = Return ([], Inr []) \<and>
   getArgsFromConfig 2 semicolonWorld (flags importSession) [] ''/b.ini'' =
     Return ([], Inr [\<lparr>Key = ''x'', Value = ''1'', FilePath = ''/b.ini'', LineNum = 1, Comment = []\<rparr>]) \<and>
   getArgsFromConfig 2 pendingWorld (flags importSession) [] ''/a.ini'' =
     Return ([], Inr [\<lparr>Key = ''x'', Value = ''2'', FilePath = ''/b.ini'', LineNum = 1, Comment = []\<rparr>,
                      \<lparr>Key = ''x'', Value = ''1'', FilePath = ''/a.ini'', LineNum = 1, Comment = []\<rparr>])"
  by code_simp

theorem import_spliced_in_place_witness:
  "loopLines (getArgsFromConfig 1 importWorld (flags importSession)) importWorld ''/dev.ini'' []
      [''/dev.ini''] (0, [], noFlagArg, []) = Return ([''/dev.ini''], Inr (0, [], noFlagArg, [])) \<and>
   Key noFlagArg = [] \<and>
   ValidString (importOf ''/base.ini'' @ [newline]) \<and>
   TrimSpace (if (0::nat) + 1 = 1 then stripBOM (importOf ''/base.ini'' @ [newline])
              else importOf ''/base.ini'' @ [newline]) = importOf ''/base.ini'' \<and>
   HasPrefix (importOf ''/base.ini'') ''#import '' \<and>
   unquoteValue (sprintfQ importWorld) (drop 7 (importOf ''/base.ini'')) = Return (Inr (''/base.ini'', [])) \<and>
   combinePath importWorld ''/dev.ini'' ''/base.ini'' = Some ''/base.ini'' \<and>
   getArgsFromConfig 1 importWorld (flags importSession) [''/dev.ini''] ''/base.ini''
     = Return ([''/dev.ini''], Inr baseArgs) \<and>
   loopLines (getArgsFromConfig 1 importWorld (flags importSession)) importWorld ''/dev.ini''
      [''flag2 = foobar'' @ [newline]] [''/dev.ini''] (0 + 1, [], noFlagArg, [])
     = Return ([''/dev.ini''], Inr (2, [], noFlagArg,
         [\<lparr>Key = ''flag2'', Value = ''foobar'', FilePath = ''/dev.ini'', LineNum = 2, Comment = []\<rparr>])) \<and>
   loopLines (getArgsFromConfig 1 importWorld (flags importSession)) importWorld ''/dev.ini''
      ([] @ (importOf ''/base.ini'' @ [newline]) # [''flag2 = foobar'' @ [newline]])
      [''/dev.ini''] (0, [], noFlagArg, [])
     = Return ([''/dev.ini''], Inr (2, [], noFlagArg, [] @ baseArgs @
         [\<lparr>Key = ''flag2'', Value = ''foobar'', FilePath = ''/dev.ini'', LineNum = 2, Comment = []\<rparr>])) \<and>
   configPathOf importWorld importSession = Return (Some ''/dev.ini'') \<and>
   getArgsFromConfig 2 importWorld (flags importSession) (importStack importSession) ''/dev.ini''
     = Return ([], Inr (baseArgs @
         \<lparr>Key = ''flag2'', Value = ''foobar'', FilePath = ''/dev.ini'', LineNum = 2, Comment = []\<rparr> # [])) \<and>
   resultOf (parseConfigFlags 2 importWorld importSession)
     = Some (Inr [(''flag1'', ''default1''), (''flag2'', ''value2'')]) \<and>
   stringVar (flags importSession) ''flag2'' = ''default2'' \<and>
   ''flag2'' \<notin> actual (flags importSession) \<and>
   valueAfter (parseConfigFlags 2 importWorld importSession) ''flag2'' = ''foobar'' \<and>
   valueAfter (parseConfigFlags 2 importWorld importSession) ''flag1'' = ''value1'' \<and>
   ValidString (semicolonImportOf ''/b.ini'' @ [newline]) \<and>
   TrimSpace (if (0::nat) + 1 = 1 then stripBOM (semicolonImportOf ''/b.ini'' @ [newline])
              else semicolonImportOf ''/b.ini'' @ [newline]) = semicolonImportOf ''/b.ini'' \<and>
   semicolonImportOf ''/b.ini'' \<noteq> [] \<and> hd (semicolonImportOf ''/b.ini'') = CHR '';'' \<and>
   lineStep (getArgsFromConfig 1 semicolonWorld (flags importSession)) semicolonWorld ''/a.ini''
      (semicolonImportOf ''/b.ini'' @ [newline]) [''/a.ini''] (0, [], noFlagArg, [])
     = Return ([''/a.ini''], Inr (0 + 1, tl (semicolonImportOf ''/b.ini''), noFlagArg, []))"
proof -
  have hs: "ValidString (semicolonImportOf ''/b.ini'' @ [newline]) \<and>
   TrimSpace (if (0::nat) + 1 = 1 then stripBOM (semicolonImportOf ''/b.ini'' @ [newline])
              else semicolonImportOf ''/b.ini'' @ [newline]) = semicolonImportOf ''/b.ini'' \<and>
   semicolonImportOf ''/b.ini'' \<noteq> [] \<and> hd (semicolonImportOf ''/b.ini'') = CHR '';''"
    by code_simp
  note semi = import_spliced_in_place [where imp = "getArgsFromConfig 1 semicolonWorld (flags importSession)"
      and w = semicolonWorld and configPath = "''/a.ini''" and stack = "[''/a.ini'']" and n = 0
      and c = "[]" and mfa = noFlagArg and args = "[]"
      and l = "semicolonImportOf ''/b.ini'' @ [newline]" and line = "semicolonImportOf ''/b.ini''",
      THEN conjunct2, THEN conjunct2, THEN mp, OF hs]
  let ?imp = "getArgsFromConfig 1 importWorld (flags importSession)"
  let ?d = "\<lparr>Key = ''flag2'', Value = ''foobar'', FilePath = ''/dev.ini'', LineNum = 2, Comment = []\<rparr>"
  have h: "loopLines ?imp importWorld ''/dev.ini'' []
      [''/dev.ini''] (0, [], noFlagArg, []) = Return ([''/dev.ini''], Inr (0, [], noFlagArg, [])) \<and>
   Key noFlagArg = [] \<and>
   ValidString (importOf ''/base.ini'' @ [newline]) \<and>
   TrimSpace (if (0::nat) + 1 = 1 then stripBOM (importOf ''/base.ini'' @ [newline])
              else importOf ''/base.ini'' @ [newline]) = importOf ''/base.ini'' \<and>
   HasPrefix (importOf ''/base.ini'') ''#import '' \<and>
   unquoteValue (sprintfQ importWorld) (drop 7 (importOf ''/base.ini'')) = Return (Inr (''/base.ini'', [])) \<and>
   combinePath importWorld ''/dev.ini'' ''/base.ini'' = Some ''/base.ini'' \<and>
   getArgsFromConfig 1 importWorld (flags importSession) [''/dev.ini''] ''/base.ini''
     = Return ([''/dev.ini''], Inr baseArgs)"
    by code_simp
  note splice = import_spliced_in_place [where imp = "?imp" and w = importWorld
      and configPath = "''/dev.ini''" and pre = "[]" and stack = "[''/dev.ini'']"
      and start = "(0, [], noFlagArg, [])" and n = 0 and c = "[]" and mfa = noFlagArg and args = "[]"
      and l = "importOf ''/base.ini'' @ [newline]" and line = "importOf ''/base.ini''"
      and importPath = "''/base.ini''" and cmt = "[]" and q = "''/base.ini''"
      and importArgs = baseArgs and post = "[''flag2 = foobar'' @ [newline]]",
      THEN conjunct1, THEN mp, OF h, THEN conjunct2]
  have later: "loopLines ?imp importWorld ''/dev.ini''
      [''flag2 = foobar'' @ [newline]] [''/dev.ini''] (0 + 1, [], noFlagArg, [])
     = Return ([''/dev.ini''], Inr (2, [], noFlagArg, [?d]))"
    by code_simp
  from splice later have whole: "loopLines ?imp importWorld ''/dev.ini''
      ([] @ (importOf ''/base.ini'' @ [newline]) # [''flag2 = foobar'' @ [newline]])
      [''/dev.ini''] (0, [], noFlagArg, [])
     = Return ([''/dev.ini''], Inr (2, [], noFlagArg, [] @ baseArgs @ [?d]))"
    by blast
  have p: "configPathOf importWorld importSession = Return (Some ''/dev.ini'') \<and>
    getArgsFromConfig 2 importWorld (flags importSession) (importStack importSession) ''/dev.ini''
     = Return ([], Inr (baseArgs @ ?d # [])) \<and>
    resultOf (parseConfigFlags 2 importWorld importSession)
     = Some (Inr [(''flag1'', ''default1''), (''flag2'', ''value2'')]) \<and>
    stringVar (flags importSession) ''flag2'' = ''default2'' \<and>
    ''flag2'' \<notin> actual (flags importSession)"
    by code_simp
  have look: "Lookup (flags importSession) (Key ?d) = Some (stringFlag ''default2'' ''usage of flag2'')"
    by (simp add: Lookup_def importSession_def newSession_def packageFlags_def)
  have setter: "\<forall>cur. ValueSet (stringFlag ''default2'' ''usage of flag2'') cur (Value ?d) = (Value ?d, True)"
    by (simp add: stringFlag_def stringValueSet_def)
  have hp: "configPathOf importWorld importSession = Return (Some ''/dev.ini'') \<and> ''/dev.ini'' \<noteq> [] \<and>
    getArgsFromConfig 2 importWorld (flags importSession) (importStack importSession) ''/dev.ini''
      = Return ([], Inr (baseArgs @ ?d # [])) \<and>
    resultOf (parseConfigFlags 2 importWorld importSession)
      = Some (Inr [(''flag1'', ''default1''), (''flag2'', ''value2'')]) \<and>
    Lookup (flags importSession) (Key ?d) = Some (stringFlag ''default2'' ''usage of flag2'') \<and>
    Key ?d \<notin> actual (flags importSession) \<and>
    (\<forall>cur. ValueSet (stringFlag ''default2'' ''usage of flag2'') cur (Value ?d) = (Value ?d, True)) \<and>
    list_all (\<lambda>a. Key a \<noteq> Key ?d \<and> flagShorthands importSession (Key a) \<noteq> Some (Key ?d)) []"
    using p look setter by simp
  note override = import_spliced_in_place [where w = importWorld and s = importSession
      and root = "''/dev.ini''" and fuel = 2 and stackRoot = "[]" and earlier = baseArgs
      and d = "?d" and later = "[]" and old = "[(''flag1'', ''default1''), (''flag2'', ''value2'')]"
      and f = "stringFlag ''default2'' ''usage of flag2''",
      THEN conjunct2, THEN conjunct1, THEN mp, OF hp]
  from override have o: "valueAfter (parseConfigFlags 2 importWorld importSession) ''flag2'' = ''foobar''"
    by simp
  have e: "valueAfter (parseConfigFlags 2 importWorld importSession) ''flag1'' = ''value1''"
    by code_simp
  from h later whole p o e hs semi show ?thesis
    by blast
qed
section \<open>Cyclic imports\<close>

text \<open>The import stack after a call is the stack before it, when this holds of the
  calls for imports.\<close>

lemma lineStep_stack:
  assumes "\<And>st p st' r. imp st p = Return (st', r) \<Longrightarrow> st' = st"
    and "lineStep imp w configPath l stack state = Return (stack', r)"
  shows "stack' = stack"
proof -
  obtain n c mfa args where state: "state = (n, c, mfa, args)"
    by (cases state)
  from assms(2) show ?thesis
    unfolding state lineStep_def Let_def
    by (auto split: if_splits outcome.splits sum.splits prod.splits option.splits dest: assms(1))
qed

lemma loopLines_stack:
  assumes "\<And>st p st' r. imp st p = Return (st', r) \<Longrightarrow> st' = st"
  shows "loopLines imp w configPath ls stack state = Return (stack', r) \<Longrightarrow> stack' = stack"
proof (induction ls arbitrary: stack state)
  case Nil
  then show ?case by simp
next
  case (Cons l ls)
  from Cons.prems obtain stackMid x where step: "lineStep imp w configPath l stack state = Return (stackMid, x)"
    by (auto split: outcome.splits)
  from lineStep_stack [OF assms step] have mid: "stackMid = stack"
    by simp
  show ?case
  proof (cases x)
    case (Inl e)
    with Cons.prems step mid show ?thesis by simp
  next
    case (Inr state')
    with Cons.prems step have "loopLines imp w configPath ls stackMid state' = Return (stack', r)"
      by simp
    from Cons.IH [OF this] mid show ?thesis by simp
  qed
qed

lemma getArgsFromConfig_stack:
  "getArgsFromConfig fuel w fs stack configPath = Return (stack', r) \<Longrightarrow> stack' = stack"
proof (induction fuel arbitrary: stack configPath stack' r)
  case 0
  then show ?case by simp
next
  case (Suc fuel)
  have imp: "\<And>st p st' r. getArgsFromConfig fuel w fs st p = Return (st', r) \<Longrightarrow> st' = st"
    by (rule Suc.IH)
  show ?case
  proof (cases "checkImportRecursion stack configPath")
    case False
    with Suc.prems show ?thesis by simp
  next
    case True
    show ?thesis
    proof (cases "openConfigFile w fs configPath")
      case (Pair reader err)
      show ?thesis
      proof (cases err)
        case (Some e)
        with Suc.prems True Pair show ?thesis
          by (auto simp: Let_def split: option.splits prod.splits)
      next
        case None
        show ?thesis
        proof (cases reader)
          case None
          with Suc.prems True Pair \<open>err = None\<close> show ?thesis
            by (simp add: Let_def)
        next
          case (Some f)
          obtain bytes ending where f: "f = (bytes, ending)" by (cases f)
          from Suc.prems True Pair \<open>err = None\<close> Some f obtain stackEnd x where
            loop: "loopLines (getArgsFromConfig fuel w fs) w configPath (readLines bytes)
                     (stack @ [configPath]) (0, [], noFlagArg, []) = Return (stackEnd, x)"
            and res: "stackEnd \<noteq> []" "stack' = butlast stackEnd"
            by (auto simp: Let_def split: outcome.splits if_splits)
          from loopLines_stack [OF imp loop] res show ?thesis by simp
        qed
      qed
    qed
  qed
qed

text \<open>A parse whose loop reaches an import that fails returns that failure.\<close>

lemma getArgsFromConfig_import_fails:
  assumes "configPath \<notin> set stack"
    and "openConfigFile w fs configPath = (Some (bytes, ending), None)"
    and "readLines bytes = pre @ l # post"
    and "loopLines (getArgsFromConfig fuel w fs) w configPath pre (stack @ [configPath])
           (0, [], noFlagArg, []) = Return (stackBefore, Inr (n, c, mfa, args))"
    and "ValidString l"
    and "TrimSpace (if n + 1 = 1 then stripBOM l else l) = line"
    and "HasPrefix line ''#import ''"
    and "unquoteValue (sprintfQ w) (drop 7 line) = Return (Inr (importPath, cmt))"
    and "combinePath w configPath importPath = Some q"
    and "getArgsFromConfig fuel w fs stackBefore q = Return (stackAfter, Inl e)"
  shows "getArgsFromConfig (Suc fuel) w fs stack configPath = Return (stack, Inl e)"
proof -
  let ?imp = "getArgsFromConfig fuel w fs"
  have bal: "\<And>st p st' r. ?imp st p = Return (st', r) \<Longrightarrow> st' = st"
    by (rule getArgsFromConfig_stack)
  from loopLines_stack [OF bal assms(4)] have before: "stackBefore = stack @ [configPath]"
    by simp
  from getArgsFromConfig_stack [OF assms(10)] have after: "stackAfter = stackBefore"
    by simp
  from lineStep_import [OF assms(5-9), of ?imp stackBefore c mfa args] assms(10)
  have "lineStep ?imp w configPath l stackBefore (n, c, mfa, args) = Return (stackAfter, Inl e)"
    by simp
  with assms(4) have "loopLines ?imp w configPath (pre @ l # post) (stack @ [configPath])
      (0, [], noFlagArg, []) = Return (stackAfter, Inl e)"
    by (simp add: loopLines_append)
  with assms(1-3) before after show ?thesis
    by (simp add: checkImportRecursion_def Let_def)
qed

lemma parseConfigFlags_parse_fails:
  assumes "configPathOf w s = Return (Some configPath)" and "configPath \<noteq> []"
    and "getArgsFromConfig fuel w (flags s) (importStack s) configPath = Return (stack', Inl e)"
  shows "parseConfigFlags fuel w s = Return (s, Inl e)"
proof -
  from getArgsFromConfig_stack [OF assms(3)] have "stack' = importStack s" .
  with assms show ?thesis
    by (simp add: parseConfigFlags_def)
qed

text \<open>
  C7. A source that is already on the import stack is not parsed again: the call fails
  with the import-recursion error. A parse whose loop reaches an import that fails with
  that error fails with it too, with no directive list; so when the source \<open>a\<close> imports \<open>b\<close>
  and \<open>b\<close> imports \<open>a\<close>, the parse of \<open>a\<close> fails with the import-recursion error. Every call
  that returns leaves the import stack as it found it, and a merge pass whose parse fails
  returns the state of the package as it was: flags and import stack are unchanged.
\<close>

theorem cyclic_import_fails:
  "(a \<notin> set stack \<and> b \<notin> set (stack @ [a]) \<and>
    openConfigFile w fs a = (Some (bytesA, endA), None) \<and> readLines bytesA = preA @ lA # postA \<and>
    loopLines (getArgsFromConfig (Suc (Suc fuel)) w fs) w a preA (stack @ [a]) (0, [], noFlagArg, [])
      = Return (stackA, Inr (nA, cA, mfaA, argsA)) \<and>
    ValidString lA \<and> TrimSpace (if nA + 1 = 1 then stripBOM lA else lA) = lineA \<and>
    HasPrefix lineA ''#import '' \<and>
    unquoteValue (sprintfQ w) (drop 7 lineA) = Return (Inr (pathA, cmtA)) \<and>
    combinePath w a pathA = Some b \<and>
    openConfigFile w fs b = (Some (bytesB, endB), None) \<and> readLines bytesB = preB @ lB # postB \<and>
    loopLines (getArgsFromConfig (Suc fuel) w fs) w b preB (stack @ [a] @ [b]) (0, [], noFlagArg, [])
      = Return (stackB, Inr (nB, cB, mfaB, argsB)) \<and>
    ValidString lB \<and> TrimSpace (if nB + 1 = 1 then stripBOM lB else lB) = lineB \<and>
    HasPrefix lineB ''#import '' \<and>
    unquoteValue (sprintfQ w) (drop 7 lineB) = Return (Inr (pathB, cmtB)) \<and>
    combinePath w b pathB = Some a \<longrightarrow>
    getArgsFromConfig (Suc (Suc (Suc fuel))) w fs stack a = Return (stack, Inl ImportRecursion)) \<and>
   (configPath \<in> set stack \<longrightarrow>
    getArgsFromConfig (Suc fuel) w fs stack configPath = Return (stack, Inl ImportRecursion)) \<and>
   (configPath \<notin> set stack \<and>
    openConfigFile w fs configPath = (Some (bytes, ending), None) \<and> readLines bytes = pre @ l # post \<and>
    loopLines (getArgsFromConfig fuel w fs) w configPath pre (stack @ [configPath]) (0, [], noFlagArg, [])
      = Return (stackBefore, Inr (n, c, mfa, args)) \<and>
    ValidString l \<and> TrimSpace (if n + 1 = 1 then stripBOM l else l) = line \<and>
    HasPrefix line ''#import '' \<and>
    unquoteValue (sprintfQ w) (drop 7 line) = Return (Inr (importPath, cmt)) \<and>
    combinePath w configPath importPath = Some q \<and>
    getArgsFromConfig fuel w fs stackBefore q = Return (stackAfter, Inl ImportRecursion) \<longrightarrow>
    getArgsFromConfig (Suc fuel) w fs stack configPath = Return (stack, Inl ImportRecursion)) \<and>
   (getArgsFromConfig fuel w fs stack configPath = Return (stackEnd, r) \<longrightarrow> stackEnd = stack) \<and>
   (configPathOf w s = Return (Some configPath) \<and> configPath \<noteq> [] \<and>
    getArgsFromConfig fuel w (flags s) (importStack s) configPath = Return (stackEnd, Inl ImportRecursion) \<longrightarrow>
    parseConfigFlags fuel w s = Return (s, Inl ImportRecursion))"
proof (intro conjI impI)
  assume h: "a \<notin> set stack \<and> b \<notin> set (stack @ [a]) \<and>
    openConfigFile w fs a = (Some (bytesA, endA), None) \<and> readLines bytesA = preA @ lA # postA \<and>
    loopLines (getArgsFromConfig (Suc (Suc fuel)) w fs) w a preA (stack @ [a]) (0, [], noFlagArg, [])
      = Return (stackA, Inr (nA, cA, mfaA, argsA)) \<and>
    ValidString lA \<and> TrimSpace (if nA + 1 = 1 then stripBOM lA else lA) = lineA \<and>
    HasPrefix lineA ''#import '' \<and>
    unquoteValue (sprintfQ w) (drop 7 lineA) = Return (Inr (pathA, cmtA)) \<and>
    combinePath w a pathA = Some b \<and>
    openConfigFile w fs b = (Some (bytesB, endB), None) \<and> readLines bytesB = preB @ lB # postB \<and>
    loopLines (getArgsFromConfig (Suc fuel) w fs) w b preB (stack @ [a] @ [b]) (0, [], noFlagArg, [])
      = Return (stackB, Inr (nB, cB, mfaB, argsB)) \<and>
    ValidString lB \<and> TrimSpace (if nB + 1 = 1 then stripBOM lB else lB) = lineB \<and>
    HasPrefix lineB ''#import '' \<and>
    unquoteValue (sprintfQ w) (drop 7 lineB) = Return (Inr (pathB, cmtB)) \<and>
    combinePath w b pathB = Some a"
  have balA: "\<And>st p st' r. getArgsFromConfig (Suc (Suc fuel)) w fs st p = Return (st', r) \<Longrightarrow> st' = st"
    by (rule getArgsFromConfig_stack)
  have balB: "\<And>st p st' r. getArgsFromConfig (Suc fuel) w fs st p = Return (st', r) \<Longrightarrow> st' = st"
    by (rule getArgsFromConfig_stack)
  from h have loopA: "loopLines (getArgsFromConfig (Suc (Suc fuel)) w fs) w a preA (stack @ [a])
      (0, [], noFlagArg, []) = Return (stackA, Inr (nA, cA, mfaA, argsA))"
    by simp
  from h have loopB: "loopLines (getArgsFromConfig (Suc fuel) w fs) w b preB (stack @ [a] @ [b])
      (0, [], noFlagArg, []) = Return (stackB, Inr (nB, cB, mfaB, argsB))"
    by simp
  from loopLines_stack [OF balA loopA] have stackA: "stackA = stack @ [a]" .
  from loopLines_stack [OF balB loopB] have stackB: "stackB = stack @ [a] @ [b]" .
  have "getArgsFromConfig (Suc fuel) w fs stackB a = Return (stackB, Inl ImportRecursion)"
    by (simp add: stackB checkImportRecursion_def)
  with h stackA have "getArgsFromConfig (Suc (Suc fuel)) w fs stackA b = Return (stackA, Inl ImportRecursion)"
    using getArgsFromConfig_import_fails [of b stackA w fs bytesB endB preB lB postB "Suc fuel"
        stackB nB cB mfaB argsB lineB pathB cmtB a stackB ImportRecursion]
    by simp
  with h show "getArgsFromConfig (Suc (Suc (Suc fuel))) w fs stack a = Return (stack, Inl ImportRecursion)"
    using getArgsFromConfig_import_fails [of a stack w fs bytesA endA preA lA postA "Suc (Suc fuel)"
        stackA nA cA mfaA argsA lineA pathA cmtA b stackA ImportRecursion]
    by simp
next
  assume "configPath \<in> set stack"
  then show "getArgsFromConfig (Suc fuel) w fs stack configPath = Return (stack, Inl ImportRecursion)"
    by (simp add: checkImportRecursion_def)
next
  assume "configPath \<notin> set stack \<and>
    openConfigFile w fs configPath = (Some (bytes, ending), None) \<and> readLines bytes = pre @ l # post \<and>
    loopLines (getArgsFromConfig fuel w fs) w configPath pre (stack @ [configPath]) (0, [], noFlagArg, [])
      = Return (stackBefore, Inr (n, c, mfa, args)) \<and>
    ValidString l \<and> TrimSpace (if n + 1 = 1 then stripBOM l else l) = line \<and>
    HasPrefix line ''#import '' \<and>
    unquoteValue (sprintfQ w) (drop 7 line) = Return (Inr (importPath, cmt)) \<and>
    combinePath w configPath importPath = Some q \<and>
    getArgsFromConfig fuel w fs stackBefore q = Return (stackAfter, Inl ImportRecursion)"
  then show "getArgsFromConfig (Suc fuel) w fs stack configPath = Return (stack, Inl ImportRecursion)"
    using getArgsFromConfig_import_fails [of configPath stack w fs bytes ending pre l post fuel
        stackBefore n c mfa args line importPath cmt q stackAfter ImportRecursion]
    by simp
next
  assume "getArgsFromConfig fuel w fs stack configPath = Return (stackEnd, r)"
  then show "stackEnd = stack"
    by (rule getArgsFromConfig_stack)
next
  assume "configPathOf w s = Return (Some configPath) \<and> configPath \<noteq> [] \<and>
    getArgsFromConfig fuel w (flags s) (importStack s) configPath = Return (stackEnd, Inl ImportRecursion)"
  then show "parseConfigFlags fuel w s = Return (s, Inl ImportRecursion)"
    using parseConfigFlags_parse_fails [of w s configPath fuel stackEnd ImportRecursion] by simp
qed

theorem cyclic_import_fails_witness:
  "''/a.ini'' \<notin> set [] \<and> ''/b.ini'' \<notin> set ([] @ [''/a.ini'']) \<and>
   openConfigFile cycleWorld (flags cycleSession) ''/a.ini''
     = (Some (lines [''x = 1'', importOf ''/b.ini''], EOF), None) \<and>
   readLines (lines [''x = 1'', importOf ''/b.ini''])
     = [''x = 1'' @ [newline]] @ (importOf ''/b.ini'' @ [newline]) # [] \<and>
   loopLines (getArgsFromConfig (Suc (Suc 0)) cycleWorld (flags cycleSession)) cycleWorld ''/a.ini''
       [''x = 1'' @ [newline]] ([] @ [''/a.ini'']) (0, [], noFlagArg, [])
     = Return ([''/a.ini''], Inr (1, [], noFlagArg,
         [\<lparr>Key = ''x'', Value = ''1'', FilePath = ''/a.ini'', LineNum = 1, Comment = []\<rparr>])) \<and>
   ValidString (importOf ''/b.ini'' @ [newline]) \<and>
   TrimSpace (if (1::nat) + 1 = 1 then stripBOM (importOf ''/b.ini'' @ [newline])
              else importOf ''/b.ini'' @ [newline]) = importOf ''/b.ini'' \<and>
   HasPrefix (importOf ''/b.ini'') ''#import '' \<and>
   unquoteValue (sprintfQ cycleWorld) (drop 7 (importOf ''/b.ini'')) = Return (Inr (''/b.ini'', [])) \<and>
   combinePath cycleWorld ''/a.ini'' ''/b.ini'' = Some ''/b.ini'' \<and>
   openConfigFile cycleWorld (flags cycleSession) ''/b.ini''
     = (Some (lines [''# the other way round'', importOf ''/a.ini'', ''y = 2''], EOF), None) \<and>
   readLines (lines [''# the other way round'', importOf ''/a.ini'', ''y = 2''])
     = [''# the other way round'' @ [newline]] @ (importOf ''/a.ini'' @ [newline]) # [''y = 2'' @ [newline]] \<and>
   loopLines (getArgsFromConfig (Suc 0) cycleWorld (flags cycleSession)) cycleWorld ''/b.ini''
       [''# the other way round'' @ [newline]] ([] @ [''/a.ini''] @ [''/b.ini'']) (0, [], noFlagArg, [])
     = Return ([''/a.ini'', ''/b.ini''], Inr (1, '' the other way round'', noFlagArg, [])) \<and>
   ValidString (importOf ''/a.ini'' @ [newline]) \<and>
   TrimSpace (if (1::nat) + 1 = 1 then stripBOM (importOf ''/a.ini'' @ [newline])
              else importOf ''/a.ini'' @ [newline]) = importOf ''/a.ini'' \<and>
   HasPrefix (importOf ''/a.ini'') ''#import '' \<and>
   unquoteValue (sprintfQ cycleWorld) (drop 7 (importOf ''/a.ini'')) = Return (Inr (''/a.ini'', [])) \<and>
   combinePath cycleWorld ''/b.ini'' ''/a.ini'' = Some ''/a.ini'' \<and>
   getArgsFromConfig (Suc (Suc (Suc 0))) cycleWorld (flags cycleSession) [] ''/a.ini''
     = Return ([], Inl ImportRecursion) \<and>
   configPathOf cycleWorld cycleSession = Return (Some ''/a.ini'') \<and>
   importStack cycleSession = [] \<and>
   parseConfigFlags (Suc (Suc (Suc 0))) cycleWorld cycleSession = Return (cycleSession, Inl ImportRecursion) \<and>
   ''/a.ini'' \<in> set [''/a.ini'', ''/b.ini''] \<and>
   getArgsFromConfig (Suc 0) cycleWorld (flags cycleSession) [''/a.ini'', ''/b.ini''] ''/a.ini''
     = Return ([''/a.ini'', ''/b.ini''], Inl ImportRecursion) \<and>
   ''/b.ini'' \<notin> set [''/a.ini''] \<and>
   getArgsFromConfig (Suc (Suc 0)) cycleWorld (flags cycleSession) [''/a.ini''] ''/b.ini''
     = Return ([''/a.ini''], Inl ImportRecursion)"
proof -
  have hd: "''/a.ini'' \<in> set [''/a.ini'', ''/b.ini'']"
    by simp
  note detect = cyclic_import_fails [where configPath = "''/a.ini''" and stack = "[''/a.ini'', ''/b.ini'']"
      and fuel = 0 and w = cycleWorld and fs = "flags cycleSession",
      THEN conjunct2, THEN conjunct1, THEN mp, OF hd]
  have hl: "''/b.ini'' \<notin> set [''/a.ini''] \<and>
   openConfigFile cycleWorld (flags cycleSession) ''/b.ini''
     = (Some (lines [''# the other way round'', importOf ''/a.ini'', ''y = 2''], EOF), None) \<and>
   readLines (lines [''# the other way round'', importOf ''/a.ini'', ''y = 2''])
     = [''# the other way round'' @ [newline]] @ (importOf ''/a.ini'' @ [newline]) # [''y = 2'' @ [newline]] \<and>
   loopLines (getArgsFromConfig (Suc 0) cycleWorld (flags cycleSession)) cycleWorld ''/b.ini''
       [''# the other way round'' @ [newline]] ([''/a.ini''] @ [''/b.ini'']) (0, [], noFlagArg, [])
     = Return ([''/a.ini'', ''/b.ini''], Inr (1, '' the other way round'', noFlagArg, [])) \<and>
   ValidString (importOf ''/a.ini'' @ [newline]) \<and>
   TrimSpace (if (1::nat) + 1 = 1 then stripBOM (importOf ''/a.ini'' @ [newline])
              else importOf ''/a.ini'' @ [newline]) = importOf ''/a.ini'' \<and>
   HasPrefix (importOf ''/a.ini'') ''#import '' \<and>
   unquoteValue (sprintfQ cycleWorld) (drop 7 (importOf ''/a.ini'')) = Return (Inr (''/a.ini'', [])) \<and>
   combinePath cycleWorld ''/b.ini'' ''/a.ini'' = Some ''/a.ini'' \<and>
   getArgsFromConfig (Suc 0) cycleWorld (flags cycleSession) [''/a.ini'', ''/b.ini''] ''/a.ini''
     = Return ([''/a.ini'', ''/b.ini''], Inl ImportRecursion)"
    by code_simp
  note level = cyclic_import_fails [where configPath = "''/b.ini''" and stack = "[''/a.ini'']"
      and fuel = "Suc 0" and w = cycleWorld and fs = "flags cycleSession",
      THEN conjunct2, THEN conjunct2, THEN conjunct1, THEN mp, OF hl]
  from hl have nb: "''/b.ini'' \<notin> set [''/a.ini'']"
    by simp
  have h: "''/a.ini'' \<notin> set [] \<and> ''/b.ini'' \<notin> set ([] @ [''/a.ini'']) \<and>
   openConfigFile cycleWorld (flags cycleSession) ''/a.ini''
     = (Some (lines [''x = 1'', importOf ''/b.ini''], EOF), None) \<and>
   readLines (lines [''x = 1'', importOf ''/b.ini''])
     = [''x = 1'' @ [newline]] @ (importOf ''/b.ini'' @ [newline]) # [] \<and>
   loopLines (getArgsFromConfig (Suc (Suc 0)) cycleWorld (flags cycleSession)) cycleWorld ''/a.ini''
       [''x = 1'' @ [newline]] ([] @ [''/a.ini'']) (0, [], noFlagArg, [])
     = Return ([''/a.ini''], Inr (1, [], noFlagArg,
         [\<lparr>Key = ''x'', Value = ''1'', FilePath = ''/a.ini'', LineNum = 1, Comment = []\<rparr>])) \<and>
   ValidString (importOf ''/b.ini'' @ [newline]) \<and>
   TrimSpace (if (1::nat) + 1 = 1 then stripBOM (importOf ''/b.ini'' @ [newline])
              else importOf ''/b.ini'' @ [newline]) = importOf ''/b.ini'' \<and>
   HasPrefix (importOf ''/b.ini'') ''#import '' \<and>
   unquoteValue (sprintfQ cycleWorld) (drop 7 (importOf ''/b.ini'')) = Return (Inr (''/b.ini'', [])) \<and>
   combinePath cycleWorld ''/a.ini'' ''/b.ini'' = Some ''/b.ini'' \<and>
   openConfigFile cycleWorld (flags cycleSession) ''/b.ini''
     = (Some (lines [''# the other way round'', importOf ''/a.ini'', ''y = 2''], EOF), None) \<and>
   readLines (lines [''# the other way round'', importOf ''/a.ini'', ''y = 2''])
     = [''# the other way round'' @ [newline]] @ (importOf ''/a.ini'' @ [newline]) # [''y = 2'' @ [newline]] \<and>
   loopLines (getArgsFromConfig (Suc 0) cycleWorld (flags cycleSession)) cycleWorld ''/b.ini''
       [''# the other way round'' @ [newline]] ([] @ [''/a.ini''] @ [''/b.ini'']) (0, [], noFlagArg, [])
     = Return ([''/a.ini'', ''/b.ini''], Inr (1, '' the other way round'', noFlagArg, [])) \<and>
   ValidString (importOf ''/a.ini'' @ [newline]) \<and>
   TrimSpace (if (1::nat) + 1 = 1 then stripBOM (importOf ''/a.ini'' @ [newline])
              else importOf ''/a.ini'' @ [newline]) = importOf ''/a.ini'' \<and>
   HasPrefix (importOf ''/a.ini'') ''#import '' \<and>
   unquoteValue (sprintfQ cycleWorld) (drop 7 (importOf ''/a.ini'')) = Return (Inr (''/a.ini'', [])) \<and>
   combinePath cycleWorld ''/b.ini'' ''/a.ini'' = Some ''/a.ini''"
    by code_simp
  note top = cyclic_import_fails [where a = "''/a.ini''" and b = "''/b.ini''" and stack = "[]"
      and w = cycleWorld and fs = "flags cycleSession" and fuel = 0, THEN conjunct1, THEN mp, OF h]
  have p: "configPathOf cycleWorld cycleSession = Return (Some ''/a.ini'')"
    by code_simp
  have st: "importStack cycleSession = []"
    by (simp add: cycleSession_def newSession_def)
  from p top st have hp: "configPathOf cycleWorld cycleSession = Return (Some ''/a.ini'') \<and> ''/a.ini'' \<noteq> [] \<and>
    getArgsFromConfig (Suc (Suc (Suc 0))) cycleWorld (flags cycleSession) (importStack cycleSession) ''/a.ini''
      = Return ([], Inl ImportRecursion)"
    by simp
  note pass = cyclic_import_fails [where w = cycleWorld and s = cycleSession and configPath = "''/a.ini''"
      and fuel = "Suc (Suc (Suc 0))" and stackEnd = "[]",
      THEN conjunct2, THEN conjunct2, THEN conjunct2, THEN conjunct2, THEN mp, OF hp]
  from h top p st pass hd detect nb level show ?thesis
    by blast
qed

section \<open>The dump\<close>

text \<open>
  C6. The dump of the flags, parsed and merged into a fresh registry, should give every
  dumped flag the value it had, and \<open>unquoteValue\<close> should undo \<open>quoteValue\<close>. The flag \<open>x\<close>
  holds the three characters \<open>"a"\<close>: \<open>quoteValue\<close> leaves the value as it is, the dump holds
  the line \<open>x = "a"  # usage of x\<close>, and the pass over the dump sets \<open>x\<close> to the one character
  \<open>a\<close>. A value that holds a backslash followed by \<open>n\<close> and a comment marker comes back with a
  newline for the two characters, and the value of one double quote makes \<open>unquoteValue\<close>
  panic.
\<close>

theorem dump_round_trip_loses_quotes:
  "stringVar (flags dumpSession) ''x'' = [dquote, CHR ''a'', dquote] \<and>
   dumpFlags dumpSession = ''x = '' @ [dquote, CHR ''a'', dquote] @ ''  # usage of x'' @ [newline] \<and>
   resultOf (parseConfigFlags 1 (localFiles [(''/dump.ini'', dumpFlags dumpSession)]) freshSession)
     = Some (Inr [(''x'', ''default'')]) \<and>
   valueAfter (parseConfigFlags 1 (localFiles [(''/dump.ini'', dumpFlags dumpSession)]) freshSession) ''x''
     = ''a'' \<and>
   valueOf (unquoteValue q (quoteValue [dquote, CHR ''a'', dquote])) = Some ''a'' \<and>
   valueOf (unquoteValue q (quoteValue [CHR ''x'', bslash, CHR ''n'', CHR ''#'']))
     = Some [CHR ''x'', bslash, newline, CHR ''#''] \<and>
   unquoteValue q (quoteValue [dquote]) = Panic"
  by code_simp

end
